theory Spec2Isabelle
  imports Main "HOL-Library.AList"
begin

section \<open>Values shared by the three modules\<close>

text \<open>
  The three JavaScript modules (\<^verbatim>\<open>lib/ollama-client.js\<close>, the Google Drive manager and the
  model manager) exchange parsed JSON values, \<^verbatim>\<open>Error\<close> objects and events. JSON values
  are modelled as a datatype; \<^verbatim>\<open>undefined\<close> is \<open>None\<close> of an option type.
\<close>

datatype json =
    JNull
  | JBool bool
  | JNum int
  | JStr string
  | JArr "json list"
  | JObj "(string \<times> json) list"

text \<open>JavaScript truthiness of a parsed JSON value, and of a possibly undefined one.\<close>

fun truthy :: "json \<Rightarrow> bool" where
  "truthy JNull = False"
| "truthy (JBool b) = b"
| "truthy (JNum n) = (n \<noteq> 0)"
| "truthy (JStr s) = (s \<noteq> [])"
| "truthy (JArr xs) = True"
| "truthy (JObj kvs) = True"

fun truthyOpt :: "json option \<Rightarrow> bool" where
  "truthyOpt None = False"
| "truthyOpt (Some v) = truthy v"

text \<open>
  Every \<^verbatim>\<open>throw new Error(...)\<close> and every rejection of the source is one constructor,
  named after its message; the argument is the interpolated part of the message.
\<close>

datatype error =
    RequestError string
  | FailedToPullModel nat
  | FailedToDeleteModel nat
  | FailedToParseModelInfo string
  | OllamaNotAccessible
  | OllamaRequiredForTraining
  | TrainingDataNotFound string
  | NotAuthenticatedRunSetup
  | NotAuthenticated
  | NoFolderConfigured
  | DirectoryNotFound string
  | NotADirectory string
  | FailedToWriteScript string
  | ScriptExecutionFailed string
  | FailedToParseScriptOutput string
  | PythonAuthFailed string
  | NodeAuthUnsupported
  | TypeError string
  | FsError string
  | SyntaxError string
  | ThrownUndefined

section \<open>OllamaClient: the streamed response parser\<close>

text \<open>
  \<^verbatim>\<open>buffer.split('\n')\<close>: the pieces between line feeds; the empty string splits into
  one empty piece, so the result is never empty.
\<close>

fun split_nl :: "string \<Rightarrow> string list" where
  "split_nl [] = [[]]"
| "split_nl (c # cs) =
     (if c = CHR 0x0A then [] # split_nl cs
      else (c # hd (split_nl cs)) # tl (split_nl cs))"

text \<open>
  \<^verbatim>\<open>line.trim()\<close> is truthy when the line has a character that is not white space.
  Only the ASCII white space and line terminators of JavaScript are recognised (tab,
  line feed, vertical tab, form feed, carriage return, space); a line of other white
  space reaches \<^verbatim>\<open>JSON.parse\<close>, which rejects it.
\<close>

definition isWhiteSpace :: "char \<Rightarrow> bool" where
  "isWhiteSpace c = (c \<in> set [CHR 0x09, CHR 0x0A, CHR 0x0B, CHR 0x0C, CHR 0x0D, CHR 0x20])"

definition trimTruthy :: "string \<Rightarrow> bool" where
  "trimTruthy line = (\<not> list_all isWhiteSpace line)"

text \<open>
  The body of \<^verbatim>\<open>lines.slice(0, -1).forEach\<close> in \<^verbatim>\<open>pullModel\<close> and \<^verbatim>\<open>streamGenerate\<close>:
  a line is forwarded when it is not blank and \<^verbatim>\<open>JSON.parse\<close> accepts it; a parse error
  is ignored. \<^verbatim>\<open>JSON.parse\<close> is the parameter \<open>parse\<close>.
\<close>

fun parseLines :: "(string \<Rightarrow> 'r option) \<Rightarrow> string list \<Rightarrow> 'r list" where
  "parseLines parse [] = []"
| "parseLines parse (line # rest) =
     (if trimTruthy line
      then (case parse line of
              Some status \<Rightarrow> status # parseLines parse rest
            | None \<Rightarrow> parseLines parse rest)
      else parseLines parse rest)"

text \<open>
  \<^verbatim>\<open>buffer += chunk\<close>. No encoding is set on the response, so a chunk is a \<^verbatim>\<open>Buffer\<close> of
  bytes and \<^verbatim>\<open>+=\<close> appends \<^verbatim>\<open>chunk.toString()\<close>: the chunk decoded as UTF-8 on its own,
  every part that does not decode replaced by U+FFFD. Text is represented by its
  well-formed UTF-8 bytes, so the decoder copies the sequences that decode and writes
  the three bytes of U+FFFD for the others. It is the decoder of the encoding
  standard: a lead byte fixes how many continuation bytes follow and the range of the
  next one; a byte outside the range ends the sequence with a replacement and is read
  again as a lead byte; a sequence still open at the end of the chunk is replaced.
\<close>

definition replacementChar :: string where
  "replacementChar = [CHR 0xEF, CHR 0xBF, CHR 0xBD]"

datatype utf8_state = Idle | Pending string nat nat nat

definition utf8Lead :: "char \<Rightarrow> string \<times> utf8_state" where
  "utf8Lead b =
     (let n = (of_char b :: nat)
      in if n \<le> 0x7F then ([b], Idle)
         else if 0xC2 \<le> n \<and> n \<le> 0xDF then ([], Pending [b] 1 0x80 0xBF)
         else if n = 0xE0 then ([], Pending [b] 2 0xA0 0xBF)
         else if n = 0xED then ([], Pending [b] 2 0x80 0x9F)
         else if 0xE1 \<le> n \<and> n \<le> 0xEF then ([], Pending [b] 2 0x80 0xBF)
         else if n = 0xF0 then ([], Pending [b] 3 0x90 0xBF)
         else if n = 0xF4 then ([], Pending [b] 3 0x80 0x8F)
         else if 0xF1 \<le> n \<and> n \<le> 0xF3 then ([], Pending [b] 3 0x80 0xBF)
         else (replacementChar, Idle))"

fun utf8Step :: "utf8_state \<Rightarrow> char \<Rightarrow> string \<times> utf8_state" where
  "utf8Step Idle b = utf8Lead b"
| "utf8Step (Pending seen needed lo hi) b =
     (if lo \<le> of_char b \<and> of_char b \<le> hi
      then (if needed \<le> 1 then (seen @ [b], Idle)
            else ([], Pending (seen @ [b]) (needed - 1) 0x80 0xBF))
      else (replacementChar @ fst (utf8Lead b), snd (utf8Lead b)))"

fun utf8Run :: "utf8_state \<Rightarrow> string \<Rightarrow> string \<times> utf8_state" where
  "utf8Run st [] = ([], st)"
| "utf8Run st (b # bs) =
     (let (out, st') = utf8Step st b;
          (outs, st'') = utf8Run st' bs
      in (out @ outs, st''))"

definition utf8Flush :: "utf8_state \<Rightarrow> string" where
  "utf8Flush st = (case st of Idle \<Rightarrow> [] | Pending seen needed lo hi \<Rightarrow> replacementChar)"

definition decodeUtf8 :: "string \<Rightarrow> string" where
  "decodeUtf8 bytes = (let (out, st) = utf8Run Idle bytes in out @ utf8Flush st)"

text \<open>
  One \<^verbatim>\<open>'data'\<close> event: the decoded chunk is appended to the buffer, the buffer is split,
  its last piece becomes the new buffer and the pieces before it are parsed. The
  result is the new buffer and the records forwarded by this event.
\<close>

definition onData :: "(string \<Rightarrow> 'r option) \<Rightarrow> string \<Rightarrow> string \<Rightarrow> string \<times> 'r list" where
  "onData parse buffer chunk =
     (let lines = split_nl (buffer @ decodeUtf8 chunk)
      in (last lines, parseLines parse (butlast lines)))"

text \<open>
  The response handler over all chunks of a body, starting from
  \<^verbatim>\<open>let buffer = ''\<close>: the final buffer and all records forwarded, in order.
\<close>

fun feed :: "(string \<Rightarrow> 'r option) \<Rightarrow> string \<Rightarrow> string list \<Rightarrow> string \<times> 'r list" where
  "feed parse buffer [] = (buffer, [])"
| "feed parse buffer (chunk # chunks) =
     (let (buffer', out) = onData parse buffer chunk;
          (buffer'', outs) = feed parse buffer' chunks
      in (buffer'', out @ outs))"

definition streamRecords :: "(string \<Rightarrow> 'r option) \<Rightarrow> string list \<Rightarrow> 'r list" where
  "streamRecords parse chunks = snd (feed parse [] chunks)"

text \<open>
  The reference the streamed parser is compared with, in the words of the
  specification: the whole body decoded and parsed at once, every complete (line-feed
  terminated) line exactly once. A piece after the last line feed is not a complete
  line.
\<close>

definition completeLines :: "string \<Rightarrow> string list" where
  "completeLines body = butlast (split_nl body)"

definition parseWholeBody :: "(string \<Rightarrow> 'r option) \<Rightarrow> string \<Rightarrow> 'r list" where
  "parseWholeBody parse body = parseLines parse (completeLines (decodeUtf8 body))"

text \<open>A chunk that is whole text: it decodes to itself and leaves no sequence open.\<close>

definition wholeUtf8 :: "string \<Rightarrow> bool" where
  "wholeUtf8 bytes = (utf8Run Idle bytes = (bytes, Idle))"

text \<open>\<^verbatim>\<open>JSON.parse\<close> on the lines the example below uses: a string literal without
  escapes.\<close>

definition parseQuoted :: "string \<Rightarrow> json option" where
  "parseQuoted s =
     (if 2 \<le> length s \<and> hd s = CHR 0x22 \<and> last s = CHR 0x22
         \<and> list_all (\<lambda>c. c \<noteq> CHR 0x22 \<and> c \<noteq> CHR 0x5C \<and> (0x20::nat) \<le> of_char c) (butlast (tl s))
      then Some (JStr (butlast (tl s)))
      else None)"

text \<open>
  The \<^verbatim>\<open>'end'\<close> handler of \<^verbatim>\<open>OllamaClient.pullModel\<close>: the promise resolves with
  \<^verbatim>\<open>{ success: true, model }\<close> when the status code is 200 and rejects otherwise.
\<close>

datatype pull_result = PullOk string

definition pullOnEnd :: "string \<Rightarrow> nat \<Rightarrow> error + pull_result" where
  "pullOnEnd modelName statusCode =
     (if statusCode = 200 then Inr (PullOk modelName)
      else Inl (FailedToPullModel statusCode))"


section \<open>Events, effects and the outside world\<close>

text \<open>
  Each of the three classes is an \<^verbatim>\<open>EventEmitter\<close>. An emitted event is recorded with
  the object that emitted it; the payload keeps the fields the source puts into it.
\<close>

datatype emitter = Manager | Ollama | GDrive

datatype direction = Upload | Download | Both

datatype event =
    PullStart string
  | PullSkipped string
  | PullProgress string json
  | PullComplete string
  | PullError string error
  | Progress string json
  | SyncStart direction
  | SyncStatus direction
  | SyncComplete json
  | ManagerSyncComplete direction json
  | ErrorEvent string error
  | Retry nat error
  | Warning error
  | TrainingStart string string
  | TrainingComplete string string string
  | ModelDeleted string
  | GdriveSetupStart
  | GdriveSetupComplete "json option"
  | Authenticated
  | UploadProgress json
  | DownloadProgress json

datatype script =
    AuthScript
  | UploadScript "json option"
  | DownloadScript "json option"
  | CreateFolderScript string "json option"

datatype request = GetTags | PostPull string | PostShow string | DeleteRequest string

text \<open>
  Everything an operation does that can be observed from outside, in order: events,
  \<^verbatim>\<open>setTimeout\<close> delays (milliseconds), executions of a generated Python script and
  HTTP requests to the serving endpoint.
\<close>

datatype effect =
    Emitted emitter event
  | Slept nat
  | RanScript script
  | Requested request

text \<open>
  The model directory \<^verbatim>\<open>modelPath\<close> as the code sees it through \<^verbatim>\<open>fs\<close>: missing, a
  plain file, or a directory with its entries in \<^verbatim>\<open>readdirSync\<close> order.
\<close>

datatype node = File | Dir

datatype model_path = Missing | IsFile | Directory "(string \<times> node) list"

text \<open>
  One attempt to run a script (\<^verbatim>\<open>_executeScriptAttempt\<close>): the script file cannot be
  written, \<^verbatim>\<open>exec\<close> reports an error (non-zero exit, timeout), or the script prints its
  standard output.
\<close>

datatype attempt_outcome = WriteFails string | ExecFails string | Prints string

text \<open>
  The environment: what the serving endpoint, the Python subprocesses and the system
  clock answer. Each answer is indexed by the number of the interaction (the field
  \<open>step\<close> of the world), so successive calls may be answered differently.
  \<^verbatim>\<open>JSON.parse\<close> is a parameter as well. \<open>clock\<close> is \<^verbatim>\<open>Date.now()\<close> in milliseconds;
  \<^verbatim>\<open>new Date().toISOString()\<close> is represented by the same number, the ISO text being a
  function of it.
\<close>

record env =
  jsonParse :: "string \<Rightarrow> json option"
  clock :: "nat \<Rightarrow> nat"
  health :: "nat \<Rightarrow> nat option"
  pullReply :: "nat \<Rightarrow> string + (nat \<times> string list)"
  showReply :: "nat \<Rightarrow> string + string"
  deleteReply :: "nat \<Rightarrow> string + nat"
  authRun :: "nat \<Rightarrow> string + string"
  scriptRun :: "nat \<Rightarrow> attempt_outcome"
  scriptEffect :: "nat \<Rightarrow> model_path \<Rightarrow> model_path"
  usePythonSDK :: bool

section \<open>The manifest\<close>

datatype source = FromOllama | Trained | Restored

text \<open>
  One value of \<^verbatim>\<open>config.models\<close>. A field the object literal does not set (or sets to
  \<^verbatim>\<open>undefined\<close>) is \<open>None\<close>; \<^verbatim>\<open>JSON.stringify\<close> drops both alike.
\<close>

record model_entry =
  source :: source
  synced :: bool
  pulledAt :: "nat option"
  info :: "json option"
  syncedAt :: "nat option"
  restoredAt :: "nat option"
  baseModel :: "string option"
  trainingDataPath :: "string option"
  trainingId :: "string option"
  trainedAt :: "nat option"

record settings =
  overwriteModels :: "json option"

record gdrive_config =
  authenticated :: "bool option"
  backupFolderId :: "json option"
  setupAt :: "nat option"

text \<open>
  \<^verbatim>\<open>this.config\<close>. \<open>models\<close> holds the own properties of \<^verbatim>\<open>config.models\<close> in the order
  \<^verbatim>\<open>Object.keys\<close> lists them.
\<close>

record config =
  models :: "(string \<times> model_entry) list"
  settings :: settings
  gdrive :: gdrive_config

definition emptyConfig :: config where
  "emptyConfig =
     \<lparr>models = [], settings = \<lparr>overwriteModels = None\<rparr>,
      gdrive = \<lparr>authenticated = None, backupFolderId = None, setupAt = None\<rparr>\<rparr>"

text \<open>The file at \<^verbatim>\<open>configPath\<close>: absent, present but not readable as JSON, or the
  JSON text of a configuration (represented by the configuration it parses to).\<close>

datatype manifest_file = NoFile | Unparsable string | Manifest config

text \<open>
  The state the operations run in: the manager's fields, the files they touch, the
  effects so far and the number of interactions with the environment so far.
  \<open>modelsProto\<close> is the prototype \<^verbatim>\<open>config.models\<close> has acquired through an assignment
  to the key \<^verbatim>\<open>__proto__\<close> (\<open>None\<close>: still \<^verbatim>\<open>Object.prototype\<close>); it is not serialised.
\<close>

record world =
  config :: config
  modelsProto :: "model_entry option"
  configFile :: manifest_file
  modelDir :: model_path
  trainingDirs :: "(string \<times> string option) list"
  otherPaths :: "string \<Rightarrow> node option"
  tokenFile :: bool
  trace :: "effect list"
  step :: nat

definition emit :: "emitter \<Rightarrow> event \<Rightarrow> world \<Rightarrow> world" where
  "emit who ev w = w\<lparr>trace := trace w @ [Emitted who ev]\<rparr>"

definition logEffect :: "effect \<Rightarrow> world \<Rightarrow> world" where
  "logEffect eff w = w\<lparr>trace := trace w @ [eff]\<rparr>"

definition advance :: "world \<Rightarrow> world" where
  "advance w = w\<lparr>step := Suc (step w)\<rparr>"

definition readClock :: "env \<Rightarrow> world \<Rightarrow> nat \<times> world" where
  "readClock env w = (clock env (step w), advance w)"

subsection \<open>JavaScript objects used as dictionaries\<close>

text \<open>
  \<^verbatim>\<open>Object.keys\<close> lists the keys that are array indices (canonical decimal numerals
  below \<open>2^32 - 1\<close>) first, in ascending order, and then the other keys in the order of
  their creation.
\<close>

definition isDigit :: "char \<Rightarrow> bool" where
  "isDigit c = ((48::nat) \<le> of_char c \<and> of_char c \<le> (57::nat))"

definition indexValue :: "string \<Rightarrow> nat" where
  "indexValue s = foldl (\<lambda>n c. 10 * n + (of_char c - 48)) (0::nat) s"

definition isArrayIndex :: "string \<Rightarrow> bool" where
  "isArrayIndex s =
     (s \<noteq> [] \<and> list_all isDigit s \<and> (s = ''0'' \<or> hd s \<noteq> CHR ''0'')
      \<and> indexValue s < 4294967295)"

fun insertIndexKey :: "string \<Rightarrow> 'v \<Rightarrow> (string \<times> 'v) list \<Rightarrow> (string \<times> 'v) list" where
  "insertIndexKey k v [] = [(k, v)]"
| "insertIndexKey k v (p # ps) =
     (if isArrayIndex (fst p) \<and> indexValue (fst p) < indexValue k
      then p # insertIndexKey k v ps
      else (k, v) # p # ps)"

text \<open>Defining or overwriting an own property: an existing key keeps its place.\<close>

definition setOwn :: "string \<Rightarrow> 'v \<Rightarrow> (string \<times> 'v) list \<Rightarrow> (string \<times> 'v) list" where
  "setOwn k v al =
     (if map_of al k \<noteq> None then AList.update k v al
      else if isArrayIndex k then insertIndexKey k v al
      else al @ [(k, v)])"

text \<open>The property names every object inherits from \<^verbatim>\<open>Object.prototype\<close>.\<close>

definition objectPrototypeKeys :: "string list" where
  "objectPrototypeKeys =
     [''constructor'', ''hasOwnProperty'', ''isPrototypeOf'', ''propertyIsEnumerable'',
      ''toLocaleString'', ''toString'', ''valueOf'', ''__defineGetter__'',
      ''__defineSetter__'', ''__lookupGetter__'', ''__lookupSetter__'', ''__proto__'']"

text \<open>
  Reading a property of an entry object that serves as prototype: \<open>None\<close> when the
  entry has no such property, otherwise the truthiness of its value.
\<close>

definition entryProperty :: "model_entry \<Rightarrow> string \<Rightarrow> bool option" where
  "entryProperty e k =
     (if k = ''source'' then Some True
      else if k = ''synced'' then Some (synced e)
      else if k = ''pulledAt'' then map_option (\<lambda>t. True) (pulledAt e)
      else if k = ''info'' then map_option truthy (info e)
      else if k = ''syncedAt'' then map_option (\<lambda>t. True) (syncedAt e)
      else if k = ''restoredAt'' then map_option (\<lambda>t. True) (restoredAt e)
      else if k = ''baseModel'' then map_option (\<lambda>s. s \<noteq> []) (baseModel e)
      else if k = ''trainingDataPath'' then map_option (\<lambda>s. s \<noteq> []) (trainingDataPath e)
      else if k = ''trainingId'' then map_option (\<lambda>s. s \<noteq> []) (trainingId e)
      else if k = ''trainedAt'' then map_option (\<lambda>t. True) (trainedAt e)
      else None)"

text \<open>
  The truthiness of \<^verbatim>\<open>this.config.models[name]\<close>: an own property (an entry object) is
  truthy; otherwise the lookup continues along the prototype chain, where the
  properties of \<^verbatim>\<open>Object.prototype\<close> are functions (and \<^verbatim>\<open>__proto__\<close> yields the
  prototype object), all truthy.
\<close>

definition modelsLookupTruthy :: "world \<Rightarrow> string \<Rightarrow> bool" where
  "modelsLookupTruthy w name =
     (case map_of (models (config w)) name of
        Some e \<Rightarrow> True
      | None \<Rightarrow>
          (case modelsProto w of
             None \<Rightarrow> name \<in> set objectPrototypeKeys
           | Some p \<Rightarrow>
               (case entryProperty p name of
                  Some b \<Rightarrow> b
                | None \<Rightarrow> name \<in> set objectPrototypeKeys)))"

text \<open>
  \<^verbatim>\<open>this.config.models[name] = entry\<close>. When \<^verbatim>\<open>__proto__\<close> is not an own property, the
  assignment reaches the setter inherited from \<^verbatim>\<open>Object.prototype\<close>: it replaces the
  prototype and creates no property.
\<close>

definition assignModel :: "string \<Rightarrow> model_entry \<Rightarrow> world \<Rightarrow> world" where
  "assignModel name entry w =
     (if name = ''__proto__'' \<and> map_of (models (config w)) name = None
      then w\<lparr>modelsProto := Some entry\<rparr>
      else w\<lparr>config := (config w)\<lparr>models := setOwn name entry (models (config w))\<rparr>\<rparr>)"

text \<open>\<^verbatim>\<open>delete this.config.models[name]\<close> removes an own property, if there is one.\<close>

definition deleteOwnModel :: "string \<Rightarrow> world \<Rightarrow> world" where
  "deleteOwnModel name w =
     w\<lparr>config := (config w)\<lparr>models := AList.delete name (models (config w))\<rparr>\<rparr>"

section \<open>OllamaClient\<close>

text \<open>\<^verbatim>\<open>modelName.replace(':', '_')\<close> replaces the first colon only.\<close>

fun replaceFirst :: "char \<Rightarrow> char \<Rightarrow> string \<Rightarrow> string" where
  "replaceFirst a b [] = []"
| "replaceFirst a b (c # cs) = (if c = a then b # cs else c # replaceFirst a b cs)"

text \<open>
  \<^verbatim>\<open>path.join(modelPath, rel)\<close> looked up in the file system. \<open>rel\<close> is taken as one
  path segment; the empty segment is \<^verbatim>\<open>modelPath\<close> itself.
\<close>

definition statModelPath :: "world \<Rightarrow> string \<Rightarrow> node option" where
  "statModelPath w rel =
     (case modelDir w of
        Missing \<Rightarrow> None
      | IsFile \<Rightarrow> (if rel = [] then Some File else None)
      | Directory entries \<Rightarrow> (if rel = [] then Some Dir else map_of entries rel))"

definition modelExists :: "world \<Rightarrow> string \<Rightarrow> bool" where
  "modelExists w modelName =
     (statModelPath w (replaceFirst CHR '':'' CHR ''_'' modelName) \<noteq> None)"

text \<open>\<^verbatim>\<open>checkHealth\<close> never rejects: an error or a timeout resolves to \<^verbatim>\<open>false\<close>.\<close>

definition checkHealth :: "env \<Rightarrow> world \<Rightarrow> bool \<times> world" where
  "checkHealth env w =
     (health env (step w) = Some 200, advance (logEffect (Requested GetTags) w))"

text \<open>
  \<^verbatim>\<open>OllamaClient.pullModel\<close>: a request error rejects; otherwise every record of the
  stream is handed to \<^verbatim>\<open>onProgress\<close> and emitted as \<^verbatim>\<open>progress\<close>, and the \<^verbatim>\<open>'end'\<close> handler
  decides. (A response that never ends settles nothing and is not modelled.)
\<close>

definition forward :: "string \<Rightarrow> (json \<Rightarrow> world \<Rightarrow> world) \<Rightarrow> world \<Rightarrow> json \<Rightarrow> world" where
  "forward modelName onProgress w status =
     emit Ollama (Progress modelName status) (onProgress status w)"

definition ollamaPullModel ::
  "env \<Rightarrow> string \<Rightarrow> (json \<Rightarrow> world \<Rightarrow> world) \<Rightarrow> world \<Rightarrow> (error + pull_result) \<times> world" where
  "ollamaPullModel env modelName onProgress w =
     (let w1 = advance (logEffect (Requested (PostPull modelName)) w)
      in case pullReply env (step w) of
           Inl msg \<Rightarrow> (Inl (RequestError msg), w1)
         | Inr (statusCode, chunks) \<Rightarrow>
             (pullOnEnd modelName statusCode,
              foldl (forward modelName onProgress) w1 (streamRecords (jsonParse env) chunks)))"


definition ollamaDeleteModel :: "env \<Rightarrow> string \<Rightarrow> world \<Rightarrow> (error + pull_result) \<times> world" where
  "ollamaDeleteModel env modelName w =
     (let w1 = advance (logEffect (Requested (DeleteRequest modelName)) w)
      in case deleteReply env (step w) of
           Inl msg \<Rightarrow> (Inl (RequestError msg), w1)
         | Inr statusCode \<Rightarrow>
             (if statusCode = 200 then (Inr (PullOk modelName), w1)
              else (Inl (FailedToDeleteModel statusCode), w1)))"


section \<open>GoogleDriveManager\<close>

text \<open>
  \<^verbatim>\<open>_executeScriptAttempt\<close>. The script runs unless its file cannot be written; a run
  may change the model directory (the download script writes into it). A result that
  parses is handed to \<^verbatim>\<open>options.onProgress\<close>.
\<close>

definition ranScript :: "env \<Rightarrow> script \<Rightarrow> world \<Rightarrow> world" where
  "ranScript env scr w =
     advance (logEffect (RanScript scr) (w\<lparr>modelDir := scriptEffect env (step w) (modelDir w)\<rparr>))"

definition executeScriptAttempt ::
  "env \<Rightarrow> script \<Rightarrow> (json \<Rightarrow> world \<Rightarrow> world) \<Rightarrow> world \<Rightarrow> (error + json) \<times> world" where
  "executeScriptAttempt env scr onProgress w =
     (case scriptRun env (step w) of
        WriteFails msg \<Rightarrow> (Inl (FailedToWriteScript msg), advance w)
      | ExecFails msg \<Rightarrow> (Inl (ScriptExecutionFailed msg), ranScript env scr w)
      | Prints stdout \<Rightarrow>
          (case jsonParse env stdout of
             None \<Rightarrow> (Inl (FailedToParseScriptOutput stdout), ranScript env scr w)
           | Some parsed \<Rightarrow> (Inr parsed, onProgress parsed (ranScript env scr w))))"

text \<open>
  \<^verbatim>\<open>_executePythonScript\<close>: \<^verbatim>\<open>options.maxRetries || 2\<close>, then the loop
  \<^verbatim>\<open>for (let attempt = 0; attempt < maxRetries; attempt++)\<close>. After a failed attempt that
  is not the last one the loop waits \<^verbatim>\<open>Math.pow(2, attempt) * 1000\<close> milliseconds and
  emits \<^verbatim>\<open>retry\<close>; when the loop is left, \<^verbatim>\<open>lastError\<close> is thrown.
\<close>

definition effectiveMaxRetries :: "nat option \<Rightarrow> nat" where
  "effectiveMaxRetries opt = (case opt of None \<Rightarrow> 2 | Some n \<Rightarrow> (if n = 0 then 2 else n))"

definition backoff :: "nat \<Rightarrow> error \<Rightarrow> world \<Rightarrow> world" where
  "backoff attempt err w =
     emit GDrive (Retry (attempt + 1) err) (logEffect (Slept (2 ^ attempt * 1000)) w)"

function retryLoop ::
  "env \<Rightarrow> script \<Rightarrow> (json \<Rightarrow> world \<Rightarrow> world) \<Rightarrow> nat \<Rightarrow> nat \<Rightarrow> error option \<Rightarrow> world
   \<Rightarrow> (error + json) \<times> world" where
  "retryLoop env scr onProgress maxRetries attempt lastError w =
     (if attempt < maxRetries
      then (case executeScriptAttempt env scr onProgress w of
              (Inr parsed, w') \<Rightarrow> (Inr parsed, w')
            | (Inl err, w') \<Rightarrow>
                retryLoop env scr onProgress maxRetries (Suc attempt) (Some err)
                  (if attempt < maxRetries - 1 then backoff attempt err w' else w'))
      else (case lastError of
              Some err \<Rightarrow> (Inl err, w)
            | None \<Rightarrow> (Inl ThrownUndefined, w)))"
  by pat_completeness auto
termination
  by (relation "measure (\<lambda>(env, scr, onProgress, maxRetries, attempt, lastError, w). maxRetries - attempt)")
     auto

declare retryLoop.simps [simp del]

definition executePythonScript ::
  "env \<Rightarrow> script \<Rightarrow> (json \<Rightarrow> world \<Rightarrow> world) \<Rightarrow> nat option \<Rightarrow> world \<Rightarrow> (error + json) \<times> world" where
  "executePythonScript env scr onProgress maxRetriesOpt w =
     retryLoop env scr onProgress (effectiveMaxRetries maxRetriesOpt) 0 None w"

text \<open>
  \<^verbatim>\<open>uploadDirectory(this.modelPath, folderId, options)\<close>, the only call the manager
  makes, and \<^verbatim>\<open>downloadModels\<close>, \<^verbatim>\<open>createFolder\<close>; none passes \<^verbatim>\<open>maxRetries\<close>.
\<close>

definition uploadDirectory :: "env \<Rightarrow> json option \<Rightarrow> world \<Rightarrow> (error + json) \<times> world" where
  "uploadDirectory env parentFolderId w =
     (case modelDir w of
        Missing \<Rightarrow> (Inl (DirectoryNotFound ''modelPath''), w)
      | IsFile \<Rightarrow> (Inl (NotADirectory ''modelPath''), w)
      | Directory entries \<Rightarrow>
          executePythonScript env (UploadScript parentFolderId)
            (\<lambda>progress. emit GDrive (UploadProgress progress)) None w)"

definition downloadModels :: "env \<Rightarrow> json option \<Rightarrow> world \<Rightarrow> (error + json) \<times> world" where
  "downloadModels env parentFolderId w =
     executePythonScript env (DownloadScript parentFolderId)
       (\<lambda>progress. emit GDrive (DownloadProgress progress)) None w"


text \<open>\<^verbatim>\<open>syncModels\<close>: the body of the \<^verbatim>\<open>try\<close> block, then the \<^verbatim>\<open>catch\<close> that emits
  \<^verbatim>\<open>error\<close> and rethrows. (Events are taken to have listeners: an \<^verbatim>\<open>error\<close> event
  without one would itself throw.)\<close>

definition syncResults :: "json \<Rightarrow> json \<Rightarrow> json" where
  "syncResults uploaded downloaded = JObj [(''uploaded'', uploaded), (''downloaded'', downloaded)]"

definition syncModelsBody ::
  "env \<Rightarrow> json option \<Rightarrow> direction \<Rightarrow> world \<Rightarrow> (error + json) \<times> world" where
  "syncModelsBody env folderId dir w =
     (case (if dir = Upload \<or> dir = Both
            then uploadDirectory env folderId (emit GDrive (SyncStatus Upload) w)
            else (Inr (JArr []), w)) of
        (Inl err, w1) \<Rightarrow> (Inl err, w1)
      | (Inr uploaded, w1) \<Rightarrow>
          (case (if dir = Download \<or> dir = Both
                 then downloadModels env folderId (emit GDrive (SyncStatus Download) w1)
                 else (Inr (JArr []), w1)) of
             (Inl err, w2) \<Rightarrow> (Inl err, w2)
           | (Inr downloaded, w2) \<Rightarrow>
               (Inr (syncResults uploaded downloaded),
                emit GDrive (SyncComplete (syncResults uploaded downloaded)) w2)))"

definition catchEmit ::
  "emitter \<Rightarrow> (error \<Rightarrow> event) \<Rightarrow> (error + 'a) \<times> world \<Rightarrow> (error + 'a) \<times> world" where
  "catchEmit who mk rw =
     (case rw of
        (Inl err, w) \<Rightarrow> (Inl err, emit who (mk err) w)
      | (Inr v, w) \<Rightarrow> (Inr v, w))"

definition syncModels ::
  "env \<Rightarrow> json option \<Rightarrow> direction \<Rightarrow> world \<Rightarrow> (error + json) \<times> world" where
  "syncModels env folderId dir w =
     catchEmit GDrive (ErrorEvent ''sync_failed'') (syncModelsBody env folderId dir w)"



definition isAuthenticated :: "world \<Rightarrow> bool" where
  "isAuthenticated w = tokenFile w"

section \<open>ModelManager\<close>

datatype result =
    PullSkippedResult string
  | PullSuccess pull_result
  | SyncResult json
  | RestoreResult json
  | TrainSuccess string string
  | DeleteSuccess string
  | SetupSuccess "json option"





text \<open>\<^verbatim>\<open>_saveConfig\<close> writes the whole configuration; the write is taken to succeed.\<close>

definition saveConfig :: "world \<Rightarrow> world" where
  "saveConfig w = w\<lparr>configFile := Manifest (config w)\<rparr>"

definition newEntry :: "source \<Rightarrow> bool \<Rightarrow> model_entry" where
  "newEntry src syn =
     \<lparr>source = src, synced = syn, pulledAt = None, info = None, syncedAt = None,
      restoredAt = None, baseModel = None, trainingDataPath = None, trainingId = None,
      trainedAt = None\<rparr>"

subsection \<open>pullModel\<close>



subsection \<open>syncToGoogleDrive\<close>

text \<open>The loop over \<^verbatim>\<open>Object.keys(this.config.models)\<close>: each entry is marked and
  stamped with its own \<^verbatim>\<open>new Date()\<close>.\<close>

fun markSynced :: "env \<Rightarrow> string list \<Rightarrow> world \<Rightarrow> world" where
  "markSynced env [] w = w"
| "markSynced env (modelName # rest) w =
     (let (now, w1) = readClock env w
      in markSynced env rest
           (w1\<lparr>config := (config w1)\<lparr>models :=
                  AList.map_entry modelName (\<lambda>e. e\<lparr>synced := True, syncedAt := Some now\<rparr>)
                    (models (config w1))\<rparr>\<rparr>))"

definition chooseFolderId :: "json option \<Rightarrow> world \<Rightarrow> json option" where
  "chooseFolderId folderIdOrConfig w =
     (case folderIdOrConfig of
        Some (JStr s) \<Rightarrow> Some (JStr s)
      | _ \<Rightarrow> backupFolderId (gdrive (config w)))"

definition syncToGoogleDriveBody :: "env \<Rightarrow> json option \<Rightarrow> world \<Rightarrow> (error + result) \<times> world" where
  "syncToGoogleDriveBody env folderIdOrConfig w =
     (if \<not> isAuthenticated w then (Inl NotAuthenticatedRunSetup, w)
      else if \<not> truthyOpt (chooseFolderId folderIdOrConfig w) then (Inl NoFolderConfigured, w)
      else
        (case syncModels env (chooseFolderId folderIdOrConfig w) Upload w of
           (Inl err, w1) \<Rightarrow> (Inl err, w1)
         | (Inr res, w1) \<Rightarrow>
             (Inr (SyncResult res),
              emit Manager (ManagerSyncComplete Upload res)
                (saveConfig (markSynced env (map fst (models (config w1))) w1)))))"

definition syncToGoogleDrive :: "env \<Rightarrow> json option \<Rightarrow> world \<Rightarrow> (error + result) \<times> world" where
  "syncToGoogleDrive env folderIdOrConfig w =
     catchEmit Manager (ErrorEvent ''sync_to_gdrive'')
       (syncToGoogleDriveBody env folderIdOrConfig (emit Manager (SyncStart Upload) w))"

subsection \<open>restoreFromGoogleDrive\<close>






subsection \<open>trainModel\<close>

text \<open>The decimal text of a number, as a template literal renders \<^verbatim>\<open>Date.now()\<close>.\<close>

definition digitChar :: "nat \<Rightarrow> char" where
  "digitChar d = ''0123456789'' ! d"

function decimal :: "nat \<Rightarrow> string" where
  "decimal n =
     (if n < 10 then [digitChar n]
      else decimal (n div 10) @ [digitChar (n mod 10)])"
  by pat_completeness auto
termination
  by (relation "measure id") auto

declare decimal.simps [simp del]

definition makeTrainingId :: "string \<Rightarrow> nat \<Rightarrow> string" where
  "makeTrainingId outputName now = outputName @ ''_'' @ decimal now"

text \<open>\<^verbatim>\<open>mkdirSync(trainingDir, { recursive: true })\<close> keeps a directory that exists;
  \<^verbatim>\<open>copyFileSync\<close> throws when the source is a directory.\<close>

definition mkdirTraining :: "string \<Rightarrow> world \<Rightarrow> world" where
  "mkdirTraining tid w =
     (if map_of (trainingDirs w) tid \<noteq> None then w
      else w\<lparr>trainingDirs := trainingDirs w @ [(tid, None)]\<rparr>)"

definition copyTrainingData :: "string \<Rightarrow> string \<Rightarrow> world \<Rightarrow> world" where
  "copyTrainingData trainingData tid w =
     w\<lparr>trainingDirs := AList.update tid (Some trainingData) (trainingDirs w)\<rparr>"

definition trainModelBody ::
  "env \<Rightarrow> string \<Rightarrow> string \<Rightarrow> string \<Rightarrow> world \<Rightarrow> (error + result) \<times> world" where
  "trainModelBody env modelName trainingData outputName w0 =
     (if otherPaths w0 trainingData = None then (Inl (TrainingDataNotFound trainingData), w0)
      else
        (let (isHealthy, w1) = checkHealth env w0
         in if \<not> isHealthy then (Inl OllamaRequiredForTraining, w1)
            else
              (let (now, w2) = readClock env w1;
                   tid = makeTrainingId outputName now;
                   w3 = mkdirTraining tid w2
               in if otherPaths w3 trainingData = Some Dir then (Inl (FsError ''EISDIR''), w3)
                  else
                    (let w4 = copyTrainingData trainingData tid w3;
                         (stamp, w5) = readClock env w4;
                         w6 = assignModel outputName
                                ((newEntry Trained False)
                                   \<lparr>baseModel := Some modelName,
                                    trainingDataPath := Some trainingData,
                                    trainingId := Some tid, trainedAt := Some stamp\<rparr>) w5
                     in (Inr (TrainSuccess tid outputName),
                         emit Manager (TrainingComplete modelName outputName tid)
                           (saveConfig w6))))))"

definition trainModel ::
  "env \<Rightarrow> string \<Rightarrow> string \<Rightarrow> string \<Rightarrow> world \<Rightarrow> (error + result) \<times> world" where
  "trainModel env modelName trainingData outputName w =
     catchEmit Manager (ErrorEvent ''training_failed'')
       (trainModelBody env modelName trainingData outputName
          (emit Manager (TrainingStart modelName outputName) w))"

subsection \<open>deleteModel\<close>

text \<open>\<^verbatim>\<open>fs.rmSync(modelDir, { recursive: true })\<close>.\<close>

definition removeModelPath :: "string \<Rightarrow> world \<Rightarrow> world" where
  "removeModelPath rel w =
     (case modelDir w of
        Missing \<Rightarrow> w
      | IsFile \<Rightarrow> (if rel = [] then w\<lparr>modelDir := Missing\<rparr> else w)
      | Directory entries \<Rightarrow>
          (if rel = [] then w\<lparr>modelDir := Missing\<rparr>
           else w\<lparr>modelDir := Directory (AList.delete rel entries)\<rparr>))"

definition deleteLocalPart :: "string \<Rightarrow> bool \<Rightarrow> world \<Rightarrow> world" where
  "deleteLocalPart modelName deleteLocal w =
     (if deleteLocal \<and> modelsLookupTruthy w modelName
      then deleteOwnModel modelName
             (if modelExists w modelName
              then removeModelPath (replaceFirst CHR '':'' CHR ''_'' modelName) w
              else w)
      else w)"

definition deleteModelBody ::
  "env \<Rightarrow> string \<Rightarrow> bool \<Rightarrow> bool \<Rightarrow> world \<Rightarrow> (error + result) \<times> world" where
  "deleteModelBody env modelName deleteLocal deleteRemote w0 =
     (let w1 = deleteLocalPart modelName deleteLocal w0
      in case (if deleteRemote then ollamaDeleteModel env modelName w1
               else (Inr (PullOk modelName), w1)) of
           (Inl err, w2) \<Rightarrow> (Inl err, w2)
         | (Inr ok, w2) \<Rightarrow>
             (Inr (DeleteSuccess modelName),
              emit Manager (ModelDeleted modelName) (saveConfig w2)))"

definition deleteModel ::
  "env \<Rightarrow> string \<Rightarrow> bool \<Rightarrow> bool \<Rightarrow> world \<Rightarrow> (error + result) \<times> world" where
  "deleteModel env modelName deleteLocal deleteRemote w =
     catchEmit Manager (ErrorEvent ''delete_failed'')
       (deleteModelBody env modelName deleteLocal deleteRemote w)"

subsection \<open>setupGoogleDrive\<close>





subsection \<open>The six operations as one family\<close>


section \<open>Observing traces\<close>

text \<open>The delays waited and the \<^verbatim>\<open>retry\<close> events (attempt number, error) in a trace.\<close>

fun delaysOf :: "effect list \<Rightarrow> nat list" where
  "delaysOf [] = []"
| "delaysOf (eff # rest) = (case eff of Slept d \<Rightarrow> d # delaysOf rest | _ \<Rightarrow> delaysOf rest)"

fun retriesOf :: "effect list \<Rightarrow> (nat \<times> error) list" where
  "retriesOf [] = []"
| "retriesOf (eff # rest) =
     (case eff of
        Emitted who (Retry n err) \<Rightarrow> (n, err) # retriesOf rest
      | _ \<Rightarrow> retriesOf rest)"

text \<open>
  What the attempt made at interaction \<open>k\<close> ends with, read off the environment, and the
  error of a failed attempt.
\<close>

definition attemptResult :: "env \<Rightarrow> nat \<Rightarrow> error + json" where
  "attemptResult env k =
     (case scriptRun env k of
        WriteFails msg \<Rightarrow> Inl (FailedToWriteScript msg)
      | ExecFails msg \<Rightarrow> Inl (ScriptExecutionFailed msg)
      | Prints stdout \<Rightarrow>
          (case jsonParse env stdout of
             None \<Rightarrow> Inl (FailedToParseScriptOutput stdout)
           | Some parsed \<Rightarrow> Inr parsed))"

definition attemptError :: "env \<Rightarrow> nat \<Rightarrow> error" where
  "attemptError env k = (case attemptResult env k of Inl err \<Rightarrow> err | Inr parsed \<Rightarrow> ThrownUndefined)"

text \<open>A progress callback that neither waits, nor emits \<^verbatim>\<open>retry\<close>, nor talks to the
  environment.\<close>

definition quiet :: "(json \<Rightarrow> world \<Rightarrow> world) \<Rightarrow> bool" where
  "quiet cb = (\<forall>v w. step (cb v w) = step w
                 \<and> delaysOf (trace (cb v w)) = delaysOf (trace w)
                 \<and> retriesOf (trace (cb v w)) = retriesOf (trace w))"




section \<open>Sample environments and worlds\<close>

text \<open>
  Concrete inputs for the examples below. \<open>parseSample\<close> is \<^verbatim>\<open>JSON.parse\<close> on the three
  texts the samples use; in \<open>sampleEnv\<close> every request and script succeeds and the clock
  advances by a millisecond per reading; in \<open>flakyEnv\<close> the first script run times out.
\<close>

definition parseSample :: "string \<Rightarrow> json option" where
  "parseSample s =
     (if s = ''{}'' then Some (JObj [])
      else if s = ''[]'' then Some (JArr [])
      else if s = ''null'' then Some JNull
      else None)"

definition sampleEnv :: env where
  "sampleEnv =
     \<lparr>jsonParse = parseSample, clock = (\<lambda>k. 1000 + k), health = (\<lambda>k. Some 200),
      pullReply = (\<lambda>k. Inr (200, [])), showReply = (\<lambda>k. Inr ''{}''),
      deleteReply = (\<lambda>k. Inr 200), authRun = (\<lambda>k. Inr ''{}''),
      scriptRun = (\<lambda>k. Prints ''{}''), scriptEffect = (\<lambda>k d. d), usePythonSDK = True\<rparr>"

definition sampleWorld :: world where
  "sampleWorld =
     \<lparr>config = emptyConfig, modelsProto = None, configFile = NoFile, modelDir = Directory [],
      trainingDirs = [], otherPaths = (\<lambda>p. if p = ''data.txt'' then Some File else None),
      tokenFile = True, trace = [], step = 0\<rparr>"

text \<open>The reading \<^verbatim>\<open>Date.now()\<close> returns inside a \<^verbatim>\<open>trainModel\<close> call that starts in \<open>w\<close>
  (the health check is the one interaction before it).\<close>

definition dateNowOfTrainModel :: "env \<Rightarrow> world \<Rightarrow> nat" where
  "dateNowOfTrainModel env w = clock env (Suc (step w))"

text \<open>An environment whose clock returns the same millisecond at every reading.\<close>

definition frozenClockEnv :: env where
  "frozenClockEnv = sampleEnv\<lparr>clock := (\<lambda>k. 1000)\<rparr>"
text \<open>A step that leaves the manager's manifest alone: the configuration in memory, its
  prototype and the file on disk are as before, and time does not run backwards.\<close>

definition keepsManifest :: "world \<Rightarrow> world \<Rightarrow> bool" where
  "keepsManifest w w' =
     (config w' = config w \<and> modelsProto w' = modelsProto w \<and> configFile w' = configFile w
      \<and> step w \<le> step w')"

text \<open>A manifest with two entries, neither synced.\<close>

definition twoModelWorld :: world where
  "twoModelWorld =
     sampleWorld\<lparr>config := emptyConfig\<lparr>models :=
       [(''alpha'', newEntry FromOllama False), (''beta'', newEntry FromOllama False)]\<rparr>\<rparr>"
text \<open>The manifest file holds exactly the configuration in memory.\<close>

definition inSync :: "world \<Rightarrow> bool" where
  "inSync w = (configFile w = Manifest (config w))"


text \<open>A manifest with the one entry \<^verbatim>\<open>alpha\<close>, saved on disk, its directory present; and a
  serving endpoint that answers the delete request with 404.\<close>

definition alphaWorld :: world where
  "alphaWorld =
     sampleWorld\<lparr>config := emptyConfig\<lparr>models := [(''alpha'', newEntry FromOllama False)]\<rparr>,
       configFile := Manifest (emptyConfig\<lparr>models := [(''alpha'', newEntry FromOllama False)]\<rparr>),
       modelDir := Directory [(''alpha'', Dir)]\<rparr>"

definition notFoundEnv :: env where
  "notFoundEnv = sampleEnv\<lparr>deleteReply := (\<lambda>k. Inr 404)\<rparr>"

text \<open>An empty manifest beside a model directory that holds a directory named
  \<^verbatim>\<open>constructor\<close>.\<close>

definition constructorWorld :: world where
  "constructorWorld = sampleWorld\<lparr>modelDir := Directory [(''constructor'', Dir)]\<rparr>"








section \<open>Properties of the stream parser\<close>

lemma split_nl_nonempty: "split_nl s \<noteq> []"
  by (induction s) auto

lemma split_nl_append:
  "split_nl (a @ b) = butlast (split_nl a) @ split_nl (last (split_nl a) @ b)"
proof (induction a)
  case Nil
  show ?case by simp
next
  case (Cons c cs)
  show ?case
  proof (cases "c = CHR 0x0A")
    case True
    with Cons show ?thesis by (simp add: split_nl_nonempty)
  next
    case False
    note nl = this
    show ?thesis
    proof (cases "butlast (split_nl cs)")
      case Nil
      then have one: "split_nl cs = [last (split_nl cs)]"
        by (metis append_butlast_last_id append_Nil split_nl_nonempty)
      have "split_nl (c # cs @ b) = (c # hd (split_nl (cs @ b))) # tl (split_nl (cs @ b))"
        using nl by simp
      moreover have "split_nl (cs @ b) = split_nl (last (split_nl cs) @ b)"
        using Cons.IH Nil by simp
      moreover have "split_nl (c # cs) = [c # last (split_nl cs)]"
        using nl one by (metis list.sel(1) list.sel(3) split_nl.simps(2))
      ultimately show ?thesis using nl by simp
    next
      case (Cons l ls)
      then obtain r where sp: "split_nl cs = l # ls @ [r]"
        by (metis append_butlast_last_id append_Cons split_nl_nonempty)
      have "split_nl (cs @ b) = (l # ls) @ split_nl (r @ b)"
        using Cons.IH sp by simp
      then show ?thesis using nl sp by simp
    qed
  qed
qed

lemma split_nl_last:
  "split_nl (last (split_nl s)) = [last (split_nl s)]"
proof -
  have "butlast (split_nl s) @ split_nl (last (split_nl s)) =
        butlast (split_nl s) @ [last (split_nl s)]"
    using split_nl_append [of s "[]"] by (simp add: split_nl_nonempty)
  then show ?thesis by simp
qed

lemma parseLines_append:
  "parseLines parse (xs @ ys) = parseLines parse xs @ parseLines parse ys"
  by (induction xs) (auto split: option.splits)

lemma feed_invariant:
  "feed parse (last (split_nl body)) chunks =
     (last (split_nl (body @ concat (map decodeUtf8 chunks))),
      parseLines parse
        (butlast (split_nl (last (split_nl body) @ concat (map decodeUtf8 chunks)))))"
proof (induction chunks arbitrary: body)
  case Nil
  show ?case by (simp add: split_nl_last)
next
  case (Cons chunk chunks)
  let ?b = "last (split_nl body)"
  let ?c = "decodeUtf8 chunk"
  let ?rest = "concat (map decodeUtf8 chunks)"
  have step: "split_nl (?b @ ?c @ ?rest) =
      butlast (split_nl (?b @ ?c)) @ split_nl (last (split_nl (?b @ ?c)) @ ?rest)"
    using split_nl_append [of "?b @ ?c" ?rest] by simp
  have lastb: "last (split_nl (body @ ?c)) = last (split_nl (?b @ ?c))"
    using split_nl_append [of body ?c] by (simp add: split_nl_nonempty)
  have ih: "feed parse (last (split_nl (?b @ ?c))) chunks =
     (last (split_nl ((body @ ?c) @ ?rest)),
      parseLines parse (butlast (split_nl (last (split_nl (?b @ ?c)) @ ?rest))))"
    using Cons.IH [of "body @ ?c"] lastb by simp
  show ?case
    using ih step
    by (simp add: onData_def Let_def split_nl_nonempty butlast_append parseLines_append)
qed

lemma feed_from_empty:
  "feed parse [] chunks =
     (last (split_nl (concat (map decodeUtf8 chunks))),
      parseLines parse (completeLines (concat (map decodeUtf8 chunks))))"
  using feed_invariant [of parse "[]" chunks]
  by (simp add: completeLines_def)

lemma streamRecords_lines:
  "streamRecords parse chunks = parseLines parse (completeLines (concat (map decodeUtf8 chunks)))"
  by (simp add: streamRecords_def feed_from_empty)

lemma utf8Run_append:
  "utf8Run st (a @ b) =
     (fst (utf8Run st a) @ fst (utf8Run (snd (utf8Run st a)) b),
      snd (utf8Run (snd (utf8Run st a)) b))"
  by (induction a arbitrary: st) (simp_all add: split_beta)

lemma wholeUtf8_decode: "wholeUtf8 bytes \<Longrightarrow> decodeUtf8 bytes = bytes"
  by (simp add: wholeUtf8_def decodeUtf8_def utf8Flush_def)

lemma wholeUtf8_append: "wholeUtf8 a \<Longrightarrow> wholeUtf8 b \<Longrightarrow> wholeUtf8 (a @ b)"
  by (simp add: wholeUtf8_def utf8Run_append)

lemma wholeUtf8_concat: "list_all wholeUtf8 chunks \<Longrightarrow> wholeUtf8 (concat chunks)"
  by (induction chunks) (simp_all add: wholeUtf8_append, simp add: wholeUtf8_def)

lemma map_decode_whole: "list_all wholeUtf8 chunks \<Longrightarrow> map decodeUtf8 chunks = chunks"
  by (induction chunks) (simp_all add: wholeUtf8_decode)

lemma wholeUtf8_ascii: "list_all (\<lambda>c. (of_char c :: nat) \<le> 0x7F) bytes \<Longrightarrow> wholeUtf8 bytes"
proof (induction bytes)
  case Nil
  show ?case by (simp add: wholeUtf8_def)
next
  case (Cons c cs)
  then have "wholeUtf8 [c]" by (simp add: wholeUtf8_def utf8Lead_def)
  moreover have "wholeUtf8 cs" using Cons by simp
  ultimately show ?case using wholeUtf8_append [of "[c]" cs] by simp
qed

text \<open>
  When no chunk boundary cuts a character (every chunk is whole text, as every chunk of
  an ASCII body is), the chunk-by-chunk parser of \<^verbatim>\<open>pullModel\<close> and \<^verbatim>\<open>streamGenerate\<close>
  forwards the records of the complete lines of the body, each once and in order: the
  same records as the whole body handed over as a single chunk and as the whole body
  parsed at once. The unfinished piece after the last line feed stays in the buffer.
\<close>

theorem streamRecords_refines_whole_body:
  "list_all wholeUtf8 chunks \<Longrightarrow>
   streamRecords parse chunks = parseWholeBody parse (concat chunks)
   \<and> streamRecords parse chunks = streamRecords parse [concat chunks]
   \<and> fst (feed parse [] chunks) = last (split_nl (concat chunks))"
proof -
  assume w: "list_all wholeUtf8 chunks"
  have m: "map decodeUtf8 chunks = chunks" using w by (rule map_decode_whole)
  have d: "decodeUtf8 (concat chunks) = concat chunks"
    using wholeUtf8_concat [OF w] by (rule wholeUtf8_decode)
  show ?thesis
    using feed_from_empty [of parse chunks] feed_from_empty [of parse "[concat chunks]"]
    by (simp add: streamRecords_def parseWholeBody_def m d)
qed

text \<open>An ASCII body of two records, cut inside the first line.\<close>

theorem streamRecords_refines_whole_body_witness:
  "list_all wholeUtf8 [[CHR 0x22, CHR ''a''], [CHR 0x22, CHR 0x0A, CHR 0x22, CHR ''b'', CHR 0x22, CHR 0x0A]]
   \<and> streamRecords parseQuoted
        [[CHR 0x22, CHR ''a''], [CHR 0x22, CHR 0x0A, CHR 0x22, CHR ''b'', CHR 0x22, CHR 0x0A]]
       = parseWholeBody parseQuoted
           [CHR 0x22, CHR ''a'', CHR 0x22, CHR 0x0A, CHR 0x22, CHR ''b'', CHR 0x22, CHR 0x0A]
   \<and> parseWholeBody parseQuoted
           [CHR 0x22, CHR ''a'', CHR 0x22, CHR 0x0A, CHR 0x22, CHR ''b'', CHR 0x22, CHR 0x0A]
       = [JStr ''a'', JStr ''b'']"
proof -
  have h: "list_all wholeUtf8
      [[CHR 0x22, CHR ''a''], [CHR 0x22, CHR 0x0A, CHR 0x22, CHR ''b'', CHR 0x22, CHR 0x0A]]"
    by (simp add: wholeUtf8_ascii)
  have e: "parseWholeBody parseQuoted
           [CHR 0x22, CHR ''a'', CHR 0x22, CHR 0x0A, CHR 0x22, CHR ''b'', CHR 0x22, CHR 0x0A]
       = [JStr ''a'', JStr ''b'']"
    by (simp add: parseWholeBody_def completeLines_def decodeUtf8_def utf8Lead_def utf8Flush_def
        parseQuoted_def trimTruthy_def isWhiteSpace_def)
  show ?thesis
    using streamRecords_refines_whole_body [OF h, of parseQuoted] h e by simp
qed

text \<open>
  C5. The claim is that for every way of cutting a response body into chunks the
  streamed parser forwards the same records as parsing the whole body at once. Each
  chunk is decoded on its own when it is appended to the buffer. The body is the
  line \<^verbatim>\<open>"e"\<close> with an acute accent on the letter (the two bytes C3 A9) and a line feed;
  it is cut between those two bytes. Parsed at once, or handed over as one chunk, the
  record is the accented letter; parsed chunk by chunk, the record is two replacement
  characters.
\<close>

theorem streamRecords_cut_character_replaced:
  "parseWholeBody parseQuoted [CHR 0x22, CHR 0xC3, CHR 0xA9, CHR 0x22, CHR 0x0A]
     = [JStr [CHR 0xC3, CHR 0xA9]]
   \<and> streamRecords parseQuoted [[CHR 0x22, CHR 0xC3, CHR 0xA9, CHR 0x22, CHR 0x0A]]
     = [JStr [CHR 0xC3, CHR 0xA9]]
   \<and> streamRecords parseQuoted [[CHR 0x22, CHR 0xC3], [CHR 0xA9, CHR 0x22, CHR 0x0A]]
     = [JStr [CHR 0xEF, CHR 0xBF, CHR 0xBD, CHR 0xEF, CHR 0xBF, CHR 0xBD]]"
  by (simp add: parseWholeBody_def streamRecords_lines completeLines_def decodeUtf8_def
      utf8Lead_def utf8Flush_def replacementChar_def parseQuoted_def trimTruthy_def
      isWhiteSpace_def)

section \<open>The retry policy of the cloud operations\<close>

lemma delaysOf_append: "delaysOf (a @ b) = delaysOf a @ delaysOf b"
  by (induction a) (auto split: effect.splits)

lemma retriesOf_append: "retriesOf (a @ b) = retriesOf a @ retriesOf b"
  by (induction a) (auto split: effect.splits event.splits)

lemma attempt_fst: "fst (executeScriptAttempt env scr cb w) = attemptResult env (step w)"
  by (simp add: executeScriptAttempt_def attemptResult_def split: attempt_outcome.splits option.splits)

lemma attempt_snd:
  assumes "quiet cb"
  shows "step (snd (executeScriptAttempt env scr cb w)) = Suc (step w)"
    and "delaysOf (trace (snd (executeScriptAttempt env scr cb w))) = delaysOf (trace w)"
    and "retriesOf (trace (snd (executeScriptAttempt env scr cb w))) = retriesOf (trace w)"
  using assms
  by (simp_all add: executeScriptAttempt_def quiet_def ranScript_def advance_def logEffect_def
        delaysOf_append retriesOf_append split: attempt_outcome.splits option.splits)

lemma backoff_simps:
  "step (backoff a err w) = step w"
  "delaysOf (trace (backoff a err w)) = delaysOf (trace w) @ [2 ^ a * 1000]"
  "retriesOf (trace (backoff a err w)) = retriesOf (trace w) @ [(a + 1, err)]"
  by (simp_all add: backoff_def emit_def logEffect_def delaysOf_append retriesOf_append)

lemma retryLoop_exit:
  "\<not> attempt < maxRetries \<Longrightarrow>
   retryLoop env scr cb maxRetries attempt (Some err) w = (Inl err, w)"
  by (simp add: retryLoop.simps [of env scr cb maxRetries attempt])

lemma retryLoop_trace:
  "quiet cb \<Longrightarrow> attempt < maxRetries \<Longrightarrow>
   (let w' = snd (retryLoop env scr cb maxRetries attempt lastError w); n = step w' - step w
    in step w < step w' \<and> attempt + n \<le> maxRetries
       \<and> delaysOf (trace w') = delaysOf (trace w) @ map (\<lambda>i. 2 ^ (attempt + i) * 1000) [0..<n - 1]
       \<and> retriesOf (trace w') = retriesOf (trace w)
            @ map (\<lambda>i. (attempt + i + 1, attemptError env (step w + i))) [0..<n - 1]
       \<and> fst (retryLoop env scr cb maxRetries attempt lastError w) = attemptResult env (step w + (n - 1))
       \<and> (\<forall>i < n - 1. \<exists>err. attemptResult env (step w + i) = Inl err)
       \<and> ((\<exists>err. attemptResult env (step w + (n - 1)) = Inl err) \<longrightarrow> attempt + n = maxRetries))"
proof (induction env scr cb maxRetries attempt lastError w rule: retryLoop.induct)
  case (1 env scr onProgress maxRetries attempt lastError w)
  note q = \<open>quiet onProgress\<close> and lt = \<open>attempt < maxRetries\<close>
  obtain r w1 where att: "executeScriptAttempt env scr onProgress w = (r, w1)"
    by (cases "executeScriptAttempt env scr onProgress w")
  have r: "r = attemptResult env (step w)" using attempt_fst [of env scr onProgress w] att by simp
  have w1: "step w1 = Suc (step w)" "delaysOf (trace w1) = delaysOf (trace w)"
       "retriesOf (trace w1) = retriesOf (trace w)"
    using attempt_snd [OF q, of env scr w] att by simp_all
  show ?case
  proof (cases r)
    case (Inr parsed)
    then show ?thesis using att r w1 lt
      by (simp add: retryLoop.simps [of env scr onProgress maxRetries attempt] Let_def)
  next
    case (Inl err)
    show ?thesis
    proof (cases "attempt < maxRetries - 1")
      case False
      then have last: "Suc attempt = maxRetries" using lt by simp
      have "retryLoop env scr onProgress maxRetries attempt lastError w = (Inl err, w1)"
        using att Inl False lt
        by (simp add: retryLoop.simps [of env scr onProgress maxRetries attempt] retryLoop_exit)
      then show ?thesis using w1 r Inl last by (simp add: Let_def)
    next
      case True
      define w2 where "w2 = backoff attempt err w1"
      have unfold: "retryLoop env scr onProgress maxRetries attempt lastError w =
          retryLoop env scr onProgress maxRetries (Suc attempt) (Some err) w2"
        using att Inl True lt
        by (simp add: retryLoop.simps [of env scr onProgress maxRetries attempt] w2_def)
      have w2: "step w2 = Suc (step w)"
        "delaysOf (trace w2) = delaysOf (trace w) @ [2 ^ attempt * 1000]"
        "retriesOf (trace w2) = retriesOf (trace w) @ [(attempt + 1, err)]"
        using w1 by (simp_all add: w2_def backoff_simps)
      have err2: "attemptResult env (step w) = Inl err"
        using r Inl by simp
      have err: "attemptError env (step w) = err" "attemptResult env (step w) = Inl err"
        using err2 by (simp_all add: attemptError_def)
      define w' where "w' = snd (retryLoop env scr onProgress maxRetries (Suc attempt) (Some err) w2)"
      define n where "n = step w' - step w2"
      have ih: "step w2 < step w' \<and> Suc attempt + n \<le> maxRetries
       \<and> delaysOf (trace w') = delaysOf (trace w2) @ map (\<lambda>i. 2 ^ (Suc attempt + i) * 1000) [0..<n - 1]
       \<and> retriesOf (trace w') = retriesOf (trace w2)
            @ map (\<lambda>i. (Suc attempt + i + 1, attemptError env (step w2 + i))) [0..<n - 1]
       \<and> fst (retryLoop env scr onProgress maxRetries (Suc attempt) (Some err) w2) = attemptResult env (step w2 + (n - 1))
       \<and> (\<forall>i < n - 1. \<exists>err. attemptResult env (step w2 + i) = Inl err)
       \<and> ((\<exists>err. attemptResult env (step w2 + (n - 1)) = Inl err) \<longrightarrow> Suc attempt + n = maxRetries)"
        using 1(1) [OF lt att [symmetric] Inl q] True lt
        unfolding w'_def n_def w2_def Let_def by simp
      from ih have ih1: "step w2 < step w'" and ih2: "Suc attempt + n \<le> maxRetries"
        and ih3: "delaysOf (trace w') =
              delaysOf (trace w2) @ map (\<lambda>i. 2 ^ (Suc attempt + i) * 1000) [0..<n - 1]"
        and ih4: "retriesOf (trace w') = retriesOf (trace w2)
              @ map (\<lambda>i. (Suc attempt + i + 1, attemptError env (step w2 + i))) [0..<n - 1]"
        and ih5: "fst (retryLoop env scr onProgress maxRetries (Suc attempt) (Some err) w2) =
              attemptResult env (step w2 + (n - 1))"
        and ih6: "\<forall>i < n - 1. \<exists>err. attemptResult env (step w2 + i) = Inl err"
        and ih7: "(\<exists>err. attemptResult env (step w2 + (n - 1)) = Inl err) \<longrightarrow>
              Suc attempt + n = maxRetries"
        by blast+
      have npos: "n > 0" using ih1 n_def by simp
      have n: "step w' - step w = Suc n" using ih1 w2(1) n_def by simp
      have shift: "[0..<Suc n - 1] = 0 # map Suc [0..<n - 1]"
        using npos by (metis Suc_pred diff_Suc_1 map_Suc_upt upt_conv_Cons)
      have snd_eq: "snd (retryLoop env scr onProgress maxRetries attempt lastError w) = w'"
        by (simp add: unfold w'_def)
      have c1: "step w < step w'" using ih1 w2(1) by simp
      have c2: "attempt + Suc n \<le> maxRetries" using ih2 by simp
      have c3: "delaysOf (trace w') =
          delaysOf (trace w) @ map (\<lambda>i. 2 ^ (attempt + i) * 1000) [0..<Suc n - 1]"
        unfolding shift using ih3 w2(2) by (simp add: comp_def)
      have c4: "retriesOf (trace w') = retriesOf (trace w)
            @ map (\<lambda>i. (attempt + i + 1, attemptError env (step w + i))) [0..<Suc n - 1]"
        unfolding shift using ih4 w2(3) w2(1) err(1) by (simp add: comp_def)
      have idx: "step w2 + (n - 1) = step w + (Suc n - 1)" using w2(1) npos by simp
      have c5: "fst (retryLoop env scr onProgress maxRetries attempt lastError w) =
          attemptResult env (step w + (Suc n - 1))"
        using ih5 unfolding unfold idx .
      have c6: "\<forall>i < Suc n - 1. \<exists>e. attemptResult env (step w + i) = Inl e"
      proof (intro allI impI)
        fix i assume i: "i < Suc n - 1"
        show "\<exists>e. attemptResult env (step w + i) = Inl e"
        proof (cases i)
          case 0 then show ?thesis using err by simp
        next
          case (Suc j)
          then have "j < n - 1" using i by simp
          then show ?thesis using ih6 w2(1) Suc by simp
        qed
      qed
      have c7: "(\<exists>e. attemptResult env (step w + (Suc n - 1)) = Inl e) \<longrightarrow>
          attempt + Suc n = maxRetries"
        using ih7 unfolding idx by simp
      show ?thesis
        unfolding Let_def snd_eq n
        using c1 c2 c3 c4 c5 c6 c7 by blast
    qed
  qed
qed

lemma quiet_emit:
  "quiet (\<lambda>v. emit GDrive (UploadProgress v))"
  "quiet (\<lambda>v. emit GDrive (DownloadProgress v))"
  by (simp_all add: quiet_def emit_def delaysOf_append retriesOf_append)


lemma effectiveMaxRetries_pos: "0 < effectiveMaxRetries opt"
  by (simp add: effectiveMaxRetries_def split: option.splits)

lemma executePythonScript_trace:
  assumes "quiet cb"
  shows "(let w' = snd (executePythonScript env scr cb opt w); n = step w' - step w
    in 0 < n \<and> n \<le> effectiveMaxRetries opt
       \<and> delaysOf (trace w') = delaysOf (trace w) @ map (\<lambda>i. 2 ^ i * 1000) [0..<n - 1]
       \<and> retriesOf (trace w') = retriesOf (trace w)
            @ map (\<lambda>i. (i + 1, attemptError env (step w + i))) [0..<n - 1]
       \<and> fst (executePythonScript env scr cb opt w) = attemptResult env (step w + (n - 1))
       \<and> (\<forall>i < n - 1. \<exists>err. attemptResult env (step w + i) = Inl err)
       \<and> ((\<exists>err. attemptResult env (step w + (n - 1)) = Inl err) \<longrightarrow> n = effectiveMaxRetries opt))"
  using retryLoop_trace [where cb = cb and maxRetries = "effectiveMaxRetries opt" and attempt = 0
      and env = env and scr = scr and lastError = None and w = w] assms effectiveMaxRetries_pos [of opt]
  by (simp add: executePythonScript_def Let_def)





section \<open>The status check of OllamaClient.pullModel\<close>

text \<open>
  C4. \<^verbatim>\<open>OllamaClient.pullModel\<close> is claimed to resolve for every status of the success
  class. The \<^verbatim>\<open>'end'\<close> handler compares with 200 only: a response that completes with
  status 201 (or 204) is rejected with \<^verbatim>\<open>Failed to pull model: HTTP 201\<close>, here for the
  handler alone and for a whole pull whose response is \<open>201\<close> with an empty body.
\<close>

theorem ollamaPullModel_rejects_201:
  "pullOnEnd ''llama2'' 201 = Inl (FailedToPullModel 201)
   \<and> pullOnEnd ''llama2'' 204 = Inl (FailedToPullModel 204)
   \<and> pullOnEnd ''llama2'' 200 = Inr (PullOk ''llama2'')
   \<and> fst (ollamaPullModel (sampleEnv\<lparr>pullReply := (\<lambda>k. Inr (201, []))\<rparr>) ''llama2''
            (\<lambda>progress w. w) sampleWorld) = Inl (FailedToPullModel 201)"
  by (simp add: pullOnEnd_def ollamaPullModel_def sampleEnv_def sampleWorld_def)

section \<open>trainModel: the training identifier\<close>

lemma digitChar_value: "d < 10 \<Longrightarrow> of_char (digitChar d) - 48 = d"
proof -
  assume "d < 10"
  then have "d = 0 \<or> d = 1 \<or> d = 2 \<or> d = 3 \<or> d = 4 \<or> d = 5 \<or> d = 6 \<or> d = 7
    \<or> d = 8 \<or> d = 9" by arith
  then show ?thesis by (elim disjE) (simp_all add: digitChar_def)
qed

lemma indexValue_snoc: "indexValue (s @ [c]) = 10 * indexValue s + (of_char c - 48)"
  by (simp add: indexValue_def)

lemma indexValue_decimal: "indexValue (decimal n) = n"
proof (induction n rule: decimal.induct)
  case (1 n)
  show ?case
  proof (cases "n < 10")
    case True
    then show ?thesis
      using digitChar_value [of n] by (simp add: decimal.simps [of n] indexValue_def)
  next
    case False
    then have "indexValue (decimal (n div 10)) = n div 10" using 1 by simp
    then show ?thesis
      using False digitChar_value [of "n mod 10"]
      by (simp add: decimal.simps [of n] indexValue_snoc)
  qed
qed

lemma decimal_inj: "decimal a = decimal b \<Longrightarrow> a = b"
  by (metis indexValue_decimal)

lemma makeTrainingId_inj: "(makeTrainingId out a = makeTrainingId out b) = (a = b)"
  using decimal_inj by (auto simp: makeTrainingId_def)

lemma map_of_insertIndexKey: "map_of (insertIndexKey k v al) = (map_of al)(k \<mapsto> v)"
  by (induction al) (auto simp: fun_eq_iff)

lemma map_of_setOwn: "map_of (setOwn k v al) = (map_of al)(k \<mapsto> v)"
  by (auto simp: setOwn_def map_of_insertIndexKey update_conv' fun_eq_iff map_add_def
      split: option.splits)

lemma models_assignModel:
  "name \<noteq> ''__proto__'' \<Longrightarrow>
   map_of (models (config (assignModel name entry w))) = (map_of (models (config w)))(name \<mapsto> entry)"
  by (simp add: assignModel_def map_of_setOwn)

lemma trainModel_success:
  assumes "trainModel env m d out w = (Inr r, w')"
  shows "r = TrainSuccess (makeTrainingId out (dateNowOfTrainModel env w)) out
    \<and> config w' = config (assignModel out
          ((newEntry Trained False)
             \<lparr>baseModel := Some m, trainingDataPath := Some d,
              trainingId := Some (makeTrainingId out (dateNowOfTrainModel env w)),
              trainedAt := Some (clock env (Suc (Suc (step w))))\<rparr>) w)"
  using assms
  by (auto simp: trainModel_def trainModelBody_def catchEmit_def checkHealth_def readClock_def
      advance_def logEffect_def emit_def Let_def saveConfig_def assignModel_def
      mkdirTraining_def copyTrainingData_def dateNowOfTrainModel_def
      split: if_splits prod.splits sum.splits)

text \<open>
  C8, as amended. The training identifier is \<open>outputName\<close>, an underscore and the decimal
  text of \<^verbatim>\<open>Date.now()\<close>. Two successful \<^verbatim>\<open>trainModel\<close> calls with the same \<open>outputName\<close>
  get distinct identifiers exactly when their two clock readings differ. Each successful
  call whose \<open>outputName\<close> is not \<^verbatim>\<open>__proto__\<close> leaves a manifest entry for \<open>outputName\<close>
  with source \<open>trained\<close>, \<open>synced = false\<close> and that identifier.
\<close>

theorem trainModel_trainingId_distinct_iff_clock:
  "trainModel env m d out w = (Inr (TrainSuccess tid out1), w1) \<Longrightarrow>
   trainModel env' m' d' out w' = (Inr (TrainSuccess tid' out2), w1') \<Longrightarrow>
   (tid \<noteq> tid') = (dateNowOfTrainModel env w \<noteq> dateNowOfTrainModel env' w')
   \<and> tid = makeTrainingId out (dateNowOfTrainModel env w)
   \<and> tid' = makeTrainingId out (dateNowOfTrainModel env' w')
   \<and> (out \<noteq> ''__proto__'' \<longrightarrow>
        (\<exists>e. map_of (models (config w1)) out = Some e \<and> source e = Trained \<and> \<not> synced e
              \<and> trainingId e = Some tid)
        \<and> (\<exists>e. map_of (models (config w1')) out = Some e \<and> source e = Trained \<and> \<not> synced e
              \<and> trainingId e = Some tid'))"
proof -
  assume a: "trainModel env m d out w = (Inr (TrainSuccess tid out1), w1)"
    and b: "trainModel env' m' d' out w' = (Inr (TrainSuccess tid' out2), w1')"
  note sa = trainModel_success [OF a] and sb = trainModel_success [OF b]
  have ta: "tid = makeTrainingId out (dateNowOfTrainModel env w)" using sa by simp
  have tb: "tid' = makeTrainingId out (dateNowOfTrainModel env' w')" using sb by simp
  have ids: "(tid \<noteq> tid') = (dateNowOfTrainModel env w \<noteq> dateNowOfTrainModel env' w')"
    unfolding ta tb by (simp add: makeTrainingId_inj)
  have ea: "out \<noteq> ''__proto__'' \<Longrightarrow>
      \<exists>e. map_of (models (config w1)) out = Some e \<and> source e = Trained \<and> \<not> synced e
              \<and> trainingId e = Some tid"
    using sa ta by (simp add: models_assignModel newEntry_def)
  have eb: "out \<noteq> ''__proto__'' \<Longrightarrow>
      \<exists>e. map_of (models (config w1')) out = Some e \<and> source e = Trained \<and> \<not> synced e
              \<and> trainingId e = Some tid'"
    using sb tb by (simp add: models_assignModel newEntry_def)
  show ?thesis using ids ta tb ea eb by blast
qed

lemma trainModel_sample:
  "trainModel sampleEnv ''alpha'' ''data.txt'' ''alpha-tuned'' sampleWorld =
     (Inr (TrainSuccess ''alpha-tuned_1001'' ''alpha-tuned''),
      snd (trainModel sampleEnv ''alpha'' ''data.txt'' ''alpha-tuned'' sampleWorld))"
  by (simp add: trainModel_def trainModelBody_def catchEmit_def checkHealth_def readClock_def
      advance_def logEffect_def emit_def Let_def sampleEnv_def sampleWorld_def
      makeTrainingId_def decimal.simps digitChar_def mkdirTraining_def)

lemmas trainModel_eval =
  trainModel_def trainModelBody_def catchEmit_def checkHealth_def readClock_def
  advance_def logEffect_def emit_def Let_def sampleEnv_def sampleWorld_def
  makeTrainingId_def decimal.simps digitChar_def mkdirTraining_def copyTrainingData_def
  saveConfig_def assignModel_def setOwn_def newEntry_def emptyConfig_def
  isArrayIndex_def isDigit_def

text \<open>Two calls in a row while the clock advances: the identifiers end in 1001 and 1004.\<close>

theorem trainModel_trainingId_distinct_iff_clock_witness:
  "fst (trainModel sampleEnv ''alpha'' ''data.txt'' ''alpha-tuned'' sampleWorld)
     = Inr (TrainSuccess ''alpha-tuned_1001'' ''alpha-tuned'')
   \<and> fst (trainModel sampleEnv ''alpha'' ''data.txt'' ''alpha-tuned''
            (snd (trainModel sampleEnv ''alpha'' ''data.txt'' ''alpha-tuned'' sampleWorld)))
     = Inr (TrainSuccess ''alpha-tuned_1004'' ''alpha-tuned'')
   \<and> (''alpha-tuned_1001'' \<noteq> ''alpha-tuned_1004'') =
       (dateNowOfTrainModel sampleEnv sampleWorld \<noteq>
        dateNowOfTrainModel sampleEnv
          (snd (trainModel sampleEnv ''alpha'' ''data.txt'' ''alpha-tuned'' sampleWorld)))
   \<and> (\<exists>e. map_of (models (config
              (snd (trainModel sampleEnv ''alpha'' ''data.txt'' ''alpha-tuned'' sampleWorld))))
              ''alpha-tuned'' = Some e
          \<and> source e = Trained \<and> \<not> synced e \<and> trainingId e = Some ''alpha-tuned_1001'')"
proof -
  define w1 where "w1 = snd (trainModel sampleEnv ''alpha'' ''data.txt'' ''alpha-tuned'' sampleWorld)"
  define w2 where "w2 = snd (trainModel sampleEnv ''alpha'' ''data.txt'' ''alpha-tuned'' w1)"
  have first: "trainModel sampleEnv ''alpha'' ''data.txt'' ''alpha-tuned'' sampleWorld
      = (Inr (TrainSuccess ''alpha-tuned_1001'' ''alpha-tuned''), w1)"
    unfolding w1_def by (simp add: trainModel_eval)
  have st: "step w1 = 3" "otherPaths w1 ''data.txt'' = Some File"
    unfolding w1_def by (simp_all add: trainModel_eval)
  have second: "trainModel sampleEnv ''alpha'' ''data.txt'' ''alpha-tuned'' w1
      = (Inr (TrainSuccess ''alpha-tuned_1004'' ''alpha-tuned''), w2)"
    unfolding w2_def using st
    by (simp add: trainModel_def trainModelBody_def catchEmit_def checkHealth_def readClock_def
        advance_def logEffect_def emit_def Let_def sampleEnv_def makeTrainingId_def
        decimal.simps digitChar_def mkdirTraining_def copyTrainingData_def)
  have ne: "''alpha-tuned'' \<noteq> ''__proto__''" by simp
  note T = trainModel_trainingId_distinct_iff_clock [OF first second]
  have c1: "fst (trainModel sampleEnv ''alpha'' ''data.txt'' ''alpha-tuned'' sampleWorld)
     = Inr (TrainSuccess ''alpha-tuned_1001'' ''alpha-tuned'')"
    by (simp only: first fst_conv)
  have c2: "fst (trainModel sampleEnv ''alpha'' ''data.txt'' ''alpha-tuned'' w1)
     = Inr (TrainSuccess ''alpha-tuned_1004'' ''alpha-tuned'')"
    by (simp only: second fst_conv)
  have c3: "(''alpha-tuned_1001'' \<noteq> ''alpha-tuned_1004'') =
       (dateNowOfTrainModel sampleEnv sampleWorld \<noteq> dateNowOfTrainModel sampleEnv w1)"
    using T by blast
  have c4: "\<exists>e. map_of (models (config w1)) ''alpha-tuned'' = Some e
          \<and> source e = Trained \<and> \<not> synced e \<and> trainingId e = Some ''alpha-tuned_1001''"
    using T ne by blast
  show ?thesis
    unfolding w1_def [symmetric] using c1 c2 c3 c4 by blast
qed

text \<open>
  C8 as stated fails: when the clock returns the same millisecond to both calls, two
  successful calls with the same \<open>outputName\<close> allocate the same identifier.
\<close>

theorem trainModel_same_millisecond_same_trainingId:
  "fst (trainModel frozenClockEnv ''alpha'' ''data.txt'' ''alpha-tuned'' sampleWorld)
     = Inr (TrainSuccess ''alpha-tuned_1000'' ''alpha-tuned'')
   \<and> fst (trainModel frozenClockEnv ''alpha'' ''data.txt'' ''alpha-tuned''
            (snd (trainModel frozenClockEnv ''alpha'' ''data.txt'' ''alpha-tuned'' sampleWorld)))
     = Inr (TrainSuccess ''alpha-tuned_1000'' ''alpha-tuned'')"
proof -
  define w1 where
    "w1 = snd (trainModel frozenClockEnv ''alpha'' ''data.txt'' ''alpha-tuned'' sampleWorld)"
  have first: "fst (trainModel frozenClockEnv ''alpha'' ''data.txt'' ''alpha-tuned'' sampleWorld)
      = Inr (TrainSuccess ''alpha-tuned_1000'' ''alpha-tuned'')"
    by (simp add: trainModel_eval frozenClockEnv_def)
  have st: "otherPaths w1 ''data.txt'' = Some File"
    unfolding w1_def by (simp add: trainModel_eval frozenClockEnv_def)
  have second: "fst (trainModel frozenClockEnv ''alpha'' ''data.txt'' ''alpha-tuned'' w1)
      = Inr (TrainSuccess ''alpha-tuned_1000'' ''alpha-tuned'')"
    using st
    by (simp add: trainModel_def trainModelBody_def catchEmit_def checkHealth_def readClock_def
        advance_def logEffect_def emit_def Let_def sampleEnv_def frozenClockEnv_def
        makeTrainingId_def decimal.simps digitChar_def mkdirTraining_def copyTrainingData_def)
  show ?thesis using first second unfolding w1_def by simp
qed

section \<open>pullModel: when a pull is skipped\<close>











section \<open>Steps that leave the manifest alone\<close>

lemma keepsManifest_refl: "keepsManifest w w"
  by (simp add: keepsManifest_def)

lemma keepsManifest_trans: "keepsManifest a b \<Longrightarrow> keepsManifest b c \<Longrightarrow> keepsManifest a c"
  by (simp add: keepsManifest_def)

lemma keepsManifest_emit: "keepsManifest w (emit who ev w)"
  by (simp add: keepsManifest_def emit_def)

lemma keepsManifest_then_emit: "keepsManifest w w' \<Longrightarrow> keepsManifest w (emit who ev w')"
  by (simp add: keepsManifest_def emit_def)

lemma keepsManifest_after_emit: "keepsManifest (emit who ev w) w' \<Longrightarrow> keepsManifest w w'"
  by (simp add: keepsManifest_def emit_def)

lemma keepsManifest_backoff: "keepsManifest w (backoff a err w)"
  by (simp add: keepsManifest_def backoff_def emit_def logEffect_def)

lemma executeScriptAttempt_keeps:
  assumes "\<And>v u. keepsManifest u (cb v u)"
  shows "keepsManifest w (snd (executeScriptAttempt env scr cb w))"
proof -
  have r: "keepsManifest w (ranScript env scr w)"
    by (simp add: keepsManifest_def ranScript_def advance_def logEffect_def)
  have a: "keepsManifest w (advance w)" by (simp add: keepsManifest_def advance_def)
  show ?thesis
    using r a assms keepsManifest_trans
    by (auto simp: executeScriptAttempt_def split: attempt_outcome.splits option.splits)
qed

lemma retryLoop_keeps:
  "(\<And>v u. keepsManifest u (cb v u)) \<Longrightarrow>
   keepsManifest w (snd (retryLoop env scr cb maxRetries attempt lastError w))"
proof (induction env scr cb maxRetries attempt lastError w rule: retryLoop.induct)
  case (1 env scr onProgress maxRetries attempt lastError w)
  note cb = 1(2)
  obtain r w1 where att: "executeScriptAttempt env scr onProgress w = (r, w1)"
    by (cases "executeScriptAttempt env scr onProgress w")
  have k1: "keepsManifest w w1"
    using executeScriptAttempt_keeps [of onProgress w env scr] cb att by simp
  show ?case
  proof (cases "attempt < maxRetries")
    case False
    then show ?thesis
      by (simp add: retryLoop.simps [of env scr onProgress maxRetries attempt] keepsManifest_refl
          split: option.splits)
  next
    case True
    show ?thesis
    proof (cases r)
      case (Inr parsed)
      then show ?thesis using True att k1
        by (simp add: retryLoop.simps [of env scr onProgress maxRetries attempt])
    next
      case (Inl err)
      define w2 where "w2 = (if attempt < maxRetries - 1 then backoff attempt err w1 else w1)"
      have k2: "keepsManifest w w2"
        using k1 keepsManifest_backoff [of w1 attempt err] keepsManifest_trans
        by (auto simp: w2_def)
      have k3: "keepsManifest w2 (snd (retryLoop env scr onProgress maxRetries (Suc attempt) (Some err) w2))"
        using 1(1) [OF True att [symmetric] Inl] cb unfolding w2_def by simp
      have unfold: "retryLoop env scr onProgress maxRetries attempt lastError w =
          retryLoop env scr onProgress maxRetries (Suc attempt) (Some err) w2"
        using True att Inl
        by (simp add: retryLoop.simps [of env scr onProgress maxRetries attempt] w2_def)
      show ?thesis unfolding unfold using k2 k3 by (rule keepsManifest_trans)
    qed
  qed
qed

lemma executePythonScript_keeps:
  "(\<And>v u. keepsManifest u (cb v u)) \<Longrightarrow>
   keepsManifest w (snd (executePythonScript env scr cb opt w))"
  by (simp add: executePythonScript_def retryLoop_keeps)

lemma uploadDirectory_keeps: "keepsManifest w (snd (uploadDirectory env f w))"
  by (auto simp: uploadDirectory_def keepsManifest_refl executePythonScript_keeps keepsManifest_emit
      split: model_path.splits)

lemma downloadModels_keeps: "keepsManifest w (snd (downloadModels env f w))"
  by (simp add: downloadModels_def executePythonScript_keeps keepsManifest_emit)


lemma catchEmit_keeps:
  "keepsManifest w (snd rw) \<Longrightarrow> keepsManifest w (snd (catchEmit who mk rw))"
  by (cases rw) (auto simp: catchEmit_def keepsManifest_then_emit split: sum.splits)

lemma syncModelsBody_keeps: "keepsManifest w (snd (syncModelsBody env f dir w))"
proof -
  obtain ru wu where u: "(if dir = Upload \<or> dir = Both
            then uploadDirectory env f (emit GDrive (SyncStatus Upload) w)
            else (Inr (JArr []), w)) = (ru, wu)"
    by (cases "(if dir = Upload \<or> dir = Both
            then uploadDirectory env f (emit GDrive (SyncStatus Upload) w)
            else (Inr (JArr []), w))")
  have ku: "keepsManifest w wu"
  proof (cases "dir = Upload \<or> dir = Both")
    case True
    then have "wu = snd (uploadDirectory env f (emit GDrive (SyncStatus Upload) w))"
      using u by simp
    then show ?thesis
      using uploadDirectory_keeps [of "emit GDrive (SyncStatus Upload) w" env f]
      by (simp add: keepsManifest_after_emit)
  next
    case False
    then show ?thesis using u by (simp add: keepsManifest_refl)
  qed
  obtain rd wd where d: "(if dir = Download \<or> dir = Both
                 then downloadModels env f (emit GDrive (SyncStatus Download) wu)
                 else (Inr (JArr []), wu)) = (rd, wd)"
    by (cases "(if dir = Download \<or> dir = Both
                 then downloadModels env f (emit GDrive (SyncStatus Download) wu)
                 else (Inr (JArr []), wu))")
  have kd: "keepsManifest wu wd"
  proof (cases "dir = Download \<or> dir = Both")
    case True
    then have "wd = snd (downloadModels env f (emit GDrive (SyncStatus Download) wu))"
      using d by simp
    then show ?thesis
      using downloadModels_keeps [of "emit GDrive (SyncStatus Download) wu" env f]
      by (simp add: keepsManifest_after_emit)
  next
    case False
    then show ?thesis using d by (simp add: keepsManifest_refl)
  qed
  have kwd: "keepsManifest w wd" using ku kd by (rule keepsManifest_trans)
  show ?thesis
    unfolding syncModelsBody_def u
    using ku kwd d by (cases ru; cases rd) (simp_all add: keepsManifest_then_emit)
qed

lemma syncModels_keeps: "keepsManifest w (snd (syncModels env f dir w))"
  by (simp add: syncModels_def catchEmit_keeps syncModelsBody_keeps)

section \<open>syncToGoogleDrive and a following trainModel\<close>

lemma map_fst_map_entry: "map fst (AList.map_entry k f xs) = map fst xs"
  by (induction xs) auto

lemma markSynced_step: "step (markSynced env ks w) = step w + length ks"
  by (induction ks arbitrary: w) (simp_all add: readClock_def advance_def Let_def)

lemma markSynced_keys:
  "map fst (models (config (markSynced env ks w))) = map fst (models (config w))"
  by (induction ks arbitrary: w) (simp_all add: readClock_def advance_def Let_def map_fst_map_entry)

lemma markSynced_entries:
  "map_of (models (config (markSynced env ks w))) n = Some e' \<Longrightarrow>
   (n \<in> set ks \<longrightarrow> synced e'
       \<and> (\<exists>k. step w \<le> k \<and> k < step w + length ks \<and> syncedAt e' = Some (clock env k)))
   \<and> (n \<notin> set ks \<longrightarrow> map_of (models (config w)) n = Some e')"
proof (induction ks arbitrary: w)
  case Nil
  then show ?case by simp
next
  case (Cons k ks)
  define w1 where "w1 = (advance w)\<lparr>config := (config w)\<lparr>models :=
      AList.map_entry k (\<lambda>e. e\<lparr>synced := True, syncedAt := Some (clock env (step w))\<rparr>)
        (models (config w))\<rparr>\<rparr>"
  have unfold: "markSynced env (k # ks) w = markSynced env ks w1"
    by (simp add: readClock_def Let_def w1_def advance_def)
  have st: "step w1 = Suc (step w)" by (simp add: w1_def advance_def)
  have m1: "map_of (models (config w1)) =
      (map_of (models (config w)))(k := (case map_of (models (config w)) k of None \<Rightarrow> None
         | Some e \<Rightarrow> Some (e\<lparr>synced := True, syncedAt := Some (clock env (step w))\<rparr>)))"
    by (simp add: w1_def advance_def map_of_map_entry)
  have fin: "map_of (models (config (markSynced env ks w1))) n = Some e'"
    using Cons.prems unfolding unfold .
  note ih = Cons.IH [OF fin]
  show ?case
  proof (cases "n \<in> set ks")
    case True
    then obtain j where "step w1 \<le> j" "j < step w1 + length ks" "syncedAt e' = Some (clock env j)"
      and "synced e'" using ih by blast
    then show ?thesis using True st by (auto intro: exI [of _ j])
  next
    case False
    then have before: "map_of (models (config w1)) n = Some e'" using ih by blast
    show ?thesis
    proof (cases "n = k")
      case True
      then have "synced e' \<and> syncedAt e' = Some (clock env (step w))"
        using before m1 by (auto split: option.splits)
      then show ?thesis using True by (auto intro: exI [of _ "step w"])
    next
      case neq: False
      then have "map_of (models (config w)) n = Some e'" using before m1 by simp
      then show ?thesis using neq False by simp
    qed
  qed
qed

lemma syncToGoogleDrive_success:
  assumes "syncToGoogleDrive env f w = (Inr r, w1)"
  shows "\<exists>u. keepsManifest w u \<and> step w < step u
      \<and> config w1 = config (markSynced env (map fst (models (config u))) u)
      \<and> step w1 = step (markSynced env (map fst (models (config u))) u)
      \<and> configFile w1 = Manifest (config w1)"
proof -
  define w0 where "w0 = emit Manager (SyncStart Upload) w"
  define fid where "fid = chooseFolderId f w0"
  obtain rs u where sm: "syncModels env fid Upload w0 = (rs, u)"
    by (cases "syncModels env fid Upload w0")
  have body: "syncToGoogleDriveBody env f w0 = (Inr r, w1)"
    using assms by (auto simp: syncToGoogleDrive_def catchEmit_def w0_def split: sum.splits prod.splits)
  then have auth: "isAuthenticated w0" "truthyOpt fid"
    by (auto simp: syncToGoogleDriveBody_def fid_def split: if_splits)
  then obtain res where rs: "rs = Inr res"
    and w1: "w1 = emit Manager (ManagerSyncComplete Upload res)
                (saveConfig (markSynced env (map fst (models (config u))) u))"
    using body sm by (auto simp: syncToGoogleDriveBody_def fid_def [symmetric] split: sum.splits)
  have k: "keepsManifest w u"
    using syncModels_keeps [of w0 env fid Upload] sm
    by (simp add: w0_def keepsManifest_after_emit)
  have dirOk: "\<exists>entries. modelDir w0 = Directory entries"
    using sm rs
    by (auto simp: syncModels_def catchEmit_def syncModelsBody_def uploadDirectory_def emit_def
        split: sum.splits prod.splits model_path.splits)
  have "step w0 < step u"
  proof -
    from dirOk obtain entries where "modelDir w0 = Directory entries" by blast
    then have up: "uploadDirectory env fid (emit GDrive (SyncStatus Upload) w0) =
        executePythonScript env (UploadScript fid) (\<lambda>progress. emit GDrive (UploadProgress progress))
          None (emit GDrive (SyncStatus Upload) w0)"
      by (simp add: uploadDirectory_def emit_def)
    have "step (emit GDrive (SyncStatus Upload) w0) <
        step (snd (executePythonScript env (UploadScript fid)
          (\<lambda>progress. emit GDrive (UploadProgress progress)) None (emit GDrive (SyncStatus Upload) w0)))"
      using executePythonScript_trace [OF quiet_emit(1), of env "UploadScript fid" None
          "emit GDrive (SyncStatus Upload) w0"]
      by (simp add: Let_def)
    then have "step w0 < step (snd (syncModelsBody env fid Upload w0))"
      using up by (auto simp: syncModelsBody_def emit_def split: sum.splits prod.splits)
    then show ?thesis
      using sm by (auto simp: syncModels_def catchEmit_def emit_def split: sum.splits prod.splits)
  qed
  then have lt: "step w < step u" by (simp add: w0_def emit_def)
  show ?thesis
    using k lt w1 by (auto simp: emit_def saveConfig_def intro!: exI [of _ u])
qed

text \<open>
  C2, as amended. After a successful \<^verbatim>\<open>syncToGoogleDrive\<close> every manifest entry has
  \<open>synced = true\<close> and a \<open>syncedAt\<close> that is a clock reading taken during the call, one
  reading per entry: the entries share one value when the clock returns the same
  reading throughout, and not otherwise. No entry is added or removed. A following
  successful \<^verbatim>\<open>trainModel\<close> (its \<open>outputName\<close> not \<^verbatim>\<open>__proto__\<close>) leaves an entry for
  \<open>outputName\<close> with \<open>synced = false\<close>, and every entry under another name as it was,
  with \<open>synced = true\<close>.
\<close>

theorem sync_marks_all_then_train_adds_unsynced:
  "syncToGoogleDrive env f w = (Inr r, w1) \<Longrightarrow>
   trainModel env' b d out w1 = (Inr r', w2) \<Longrightarrow>
   out \<noteq> ''__proto__'' \<Longrightarrow>
   (\<forall>n e. map_of (models (config w1)) n = Some e \<longrightarrow>
       synced e \<and> (\<exists>k. step w < k \<and> k < step w1 \<and> syncedAt e = Some (clock env k)))
   \<and> ((\<exists>t. \<forall>k. step w < k \<and> k < step w1 \<longrightarrow> clock env k = t) \<longrightarrow>
       (\<exists>t. \<forall>n e. map_of (models (config w1)) n = Some e \<longrightarrow> syncedAt e = Some t))
   \<and> map fst (models (config w1)) = map fst (models (config w))
   \<and> (\<exists>e. map_of (models (config w2)) out = Some e \<and> \<not> synced e \<and> source e = Trained)
   \<and> (\<forall>n e. n \<noteq> out \<and> map_of (models (config w1)) n = Some e \<longrightarrow>
         map_of (models (config w2)) n = Some e \<and> synced e)"
proof -
  assume sy: "syncToGoogleDrive env f w = (Inr r, w1)"
    and tr: "trainModel env' b d out w1 = (Inr r', w2)"
    and np: "out \<noteq> ''__proto__''"
  from syncToGoogleDrive_success [OF sy] obtain u where k: "keepsManifest w u"
    and lt: "step w < step u"
    and c1: "config w1 = config (markSynced env (map fst (models (config u))) u)"
    and s1: "step w1 = step (markSynced env (map fst (models (config u))) u)"
    by blast
  let ?ks = "map fst (models (config u))"
  have cu: "config u = config w" using k by (simp add: keepsManifest_def)
  have st: "step w1 = step u + length ?ks" using s1 by (simp add: markSynced_step)
  have all: "synced e \<and> (\<exists>k. step w < k \<and> k < step w1 \<and> syncedAt e = Some (clock env k))"
    if m: "map_of (models (config w1)) n = Some e" for n e
  proof -
    have m': "map_of (models (config (markSynced env ?ks u))) n = Some e" using m c1 by simp
    have "n \<in> set (map fst (models (config w1)))"
      using m by (metis map_of_eq_None_iff option.distinct(1) set_map)
    then have "n \<in> set ?ks" using c1 by (simp add: markSynced_keys)
    then obtain j where "synced e" "step u \<le> j" "j < step u + length ?ks"
      "syncedAt e = Some (clock env j)"
      using markSynced_entries [OF m'] by blast
    then show ?thesis using lt st by (auto intro: exI [of _ j])
  qed
  have shared: "\<exists>t. \<forall>n e. map_of (models (config w1)) n = Some e \<longrightarrow> syncedAt e = Some t"
    if "\<exists>t. \<forall>k. step w < k \<and> k < step w1 \<longrightarrow> clock env k = t"
  proof -
    from that obtain t where t: "\<forall>k. step w < k \<and> k < step w1 \<longrightarrow> clock env k = t" by blast
    have "syncedAt e = Some t" if "map_of (models (config w1)) n = Some e" for n e
      using all [OF that] t by auto
    then show ?thesis by blast
  qed
  have keys: "map fst (models (config w1)) = map fst (models (config w))"
    using c1 cu by (simp add: markSynced_keys)
  note ts = trainModel_success [OF tr]
  have new: "\<exists>e. map_of (models (config w2)) out = Some e \<and> \<not> synced e \<and> source e = Trained"
    using ts np by (simp add: models_assignModel newEntry_def)
  have old: "map_of (models (config w2)) n = Some e \<and> synced e"
    if "n \<noteq> out \<and> map_of (models (config w1)) n = Some e" for n e
    using ts np that all [of n e] by (simp add: models_assignModel)
  show ?thesis using all shared keys new old by blast
qed

lemma executePythonScript_default:
  "executePythonScript env scr cb None w =
     (case executeScriptAttempt env scr cb w of
        (Inr parsed, w1) \<Rightarrow> (Inr parsed, w1)
      | (Inl err, w1) \<Rightarrow>
          (case executeScriptAttempt env scr cb (backoff 0 err w1) of
             (Inr parsed, w2) \<Rightarrow> (Inr parsed, w2)
           | (Inl err2, w2) \<Rightarrow> (Inl err2, w2)))"
  by (simp add: executePythonScript_def effectiveMaxRetries_def
      retryLoop.simps [of env scr cb 2 0] retryLoop.simps [of env scr cb 2 "Suc 0"]
      retryLoop.simps [of env scr cb 2 "Suc (Suc 0)"]
      split: prod.splits sum.splits)

lemmas sync_eval =
  syncToGoogleDrive_def syncToGoogleDriveBody_def catchEmit_def isAuthenticated_def
  chooseFolderId_def syncModels_def syncModelsBody_def syncResults_def uploadDirectory_def
  executePythonScript_default executeScriptAttempt_def ranScript_def backoff_def
  emit_def advance_def logEffect_def readClock_def saveConfig_def Let_def
  sampleEnv_def sampleWorld_def twoModelWorld_def parseSample_def newEntry_def emptyConfig_def

text \<open>
  C2 as stated fails. After a successful sync of a manifest with two entries, while the
  clock advances by a millisecond per reading, the two \<open>syncedAt\<close> values differ.
\<close>

theorem sync_stamps_entries_separately:
  "fst (syncToGoogleDrive sampleEnv (Some (JStr ''folder-1'')) twoModelWorld)
     = Inr (SyncResult (JObj [(''uploaded'', JObj []), (''downloaded'', JArr [])]))
   \<and> map_option syncedAt (map_of (models (config (snd
        (syncToGoogleDrive sampleEnv (Some (JStr ''folder-1'')) twoModelWorld)))) ''alpha'')
       = Some (Some 1001)
   \<and> map_option syncedAt (map_of (models (config (snd
        (syncToGoogleDrive sampleEnv (Some (JStr ''folder-1'')) twoModelWorld)))) ''beta'')
       = Some (Some 1002)"
  by (simp add: sync_eval)

text \<open>A sync of the two entries followed by training \<^verbatim>\<open>alpha-tuned\<close> from \<^verbatim>\<open>alpha\<close>.\<close>

theorem sync_marks_all_then_train_adds_unsynced_witness:
  "map_option synced (map_of (models (config (snd
      (syncToGoogleDrive sampleEnv (Some (JStr ''folder-1'')) twoModelWorld)))) ''alpha'') = Some True
   \<and> map_option synced (map_of (models (config (snd
      (syncToGoogleDrive sampleEnv (Some (JStr ''folder-1'')) twoModelWorld)))) ''beta'') = Some True
   \<and> map_option synced (map_of (models (config (snd
      (trainModel sampleEnv ''alpha'' ''data.txt'' ''alpha-tuned'' (snd
        (syncToGoogleDrive sampleEnv (Some (JStr ''folder-1'')) twoModelWorld)))))) ''alpha-tuned'')
       = Some False
   \<and> map_option synced (map_of (models (config (snd
      (trainModel sampleEnv ''alpha'' ''data.txt'' ''alpha-tuned'' (snd
        (syncToGoogleDrive sampleEnv (Some (JStr ''folder-1'')) twoModelWorld)))))) ''alpha'')
       = Some True"
proof -
  define w1 where "w1 = snd (syncToGoogleDrive sampleEnv (Some (JStr ''folder-1'')) twoModelWorld)"
  define w2 where "w2 = snd (trainModel sampleEnv ''alpha'' ''data.txt'' ''alpha-tuned'' w1)"
  have "fst (syncToGoogleDrive sampleEnv (Some (JStr ''folder-1'')) twoModelWorld)
     = Inr (SyncResult (JObj [(''uploaded'', JObj []), (''downloaded'', JArr [])]))"
    by (simp add: sync_eval)
  then have sy: "syncToGoogleDrive sampleEnv (Some (JStr ''folder-1'')) twoModelWorld
     = (Inr (SyncResult (JObj [(''uploaded'', JObj []), (''downloaded'', JArr [])])), w1)"
    unfolding w1_def by (simp add: prod_eq_iff)
  have st: "step w1 = 3" "otherPaths w1 ''data.txt'' = Some File"
    unfolding w1_def by (simp_all add: sync_eval)
  have "fst (trainModel sampleEnv ''alpha'' ''data.txt'' ''alpha-tuned'' w1)
      = Inr (TrainSuccess ''alpha-tuned_1004'' ''alpha-tuned'')"
    using st
    by (simp add: trainModel_def trainModelBody_def catchEmit_def checkHealth_def readClock_def
        advance_def logEffect_def emit_def Let_def sampleEnv_def makeTrainingId_def
        decimal.simps digitChar_def mkdirTraining_def copyTrainingData_def)
  then have tr: "trainModel sampleEnv ''alpha'' ''data.txt'' ''alpha-tuned'' w1
      = (Inr (TrainSuccess ''alpha-tuned_1004'' ''alpha-tuned''), w2)"
    unfolding w2_def by (simp add: prod_eq_iff)
  have ne: "''alpha-tuned'' \<noteq> ''__proto__''" by simp
  note T = sync_marks_all_then_train_adds_unsynced [OF sy tr ne]
  note T1 = T [THEN conjunct1]
  note T3 = T [THEN conjunct2, THEN conjunct2, THEN conjunct1]
  note T4 = T [THEN conjunct2, THEN conjunct2, THEN conjunct2, THEN conjunct1]
  note T5 = T [THEN conjunct2, THEN conjunct2, THEN conjunct2, THEN conjunct2]
  have keys: "map fst (models (config w1)) = [''alpha'', ''beta'']"
    using T3 by (simp add: twoModelWorld_def sampleWorld_def emptyConfig_def)
  have "''alpha'' \<in> set (map fst (models (config w1)))" unfolding keys by simp
  then have "map_of (models (config w1)) ''alpha'' \<noteq> None" by (simp add: map_of_eq_None_iff)
  then obtain ea where ea: "map_of (models (config w1)) ''alpha'' = Some ea" by blast
  have "''beta'' \<in> set (map fst (models (config w1)))" unfolding keys by simp
  then have "map_of (models (config w1)) ''beta'' \<noteq> None" by (simp add: map_of_eq_None_iff)
  then obtain eb where eb: "map_of (models (config w1)) ''beta'' = Some eb" by blast
  have a1: "synced ea" using T1 [rule_format, OF ea] by simp
  have b1: "synced eb" using T1 [rule_format, OF eb] by simp
  obtain en where en: "map_of (models (config w2)) ''alpha-tuned'' = Some en" "\<not> synced en"
    using T4 by blast
  have neq: "''alpha'' \<noteq> ''alpha-tuned''" by simp
  have a2: "map_of (models (config w2)) ''alpha'' = Some ea"
    using T5 [rule_format, of "''alpha''" ea] ea neq by simp
  show ?thesis
    unfolding w1_def [symmetric] w2_def [symmetric]
    using ea eb a1 b1 en a2 by simp
qed

section \<open>The manifest in memory and on disk\<close>









lemma keepsManifest_inSync: "keepsManifest w w' \<Longrightarrow> inSync w \<Longrightarrow> inSync w'"
  by (simp add: keepsManifest_def inSync_def)








section \<open>Which entries an operation can leave\<close>























lemmas deleteModel_eval =
  deleteModel_def deleteModelBody_def deleteLocalPart_def deleteOwnModel_def catchEmit_def
  modelsLookupTruthy_def objectPrototypeKeys_def modelExists_def statModelPath_def
  removeModelPath_def ollamaDeleteModel_def saveConfig_def emit_def advance_def logEffect_def
  Let_def sampleEnv_def sampleWorld_def emptyConfig_def newEntry_def

section \<open>deleteModel\<close>

text \<open>
  C3. The claim is that whenever an operation returns, resolved or rejected, the
  manifest in memory is the one on disk. \<^verbatim>\<open>deleteModel('alpha', true, true)\<close> removes the
  entry from the manifest in memory, then awaits the endpoint's delete, and saves only
  after it: when the endpoint answers 404 the operation rejects, the entry is gone
  from memory and the file on disk, which was in step before, still holds it.
\<close>

theorem deleteModel_rejected_after_unsaved_removal:
  "inSync alphaWorld
   \<and> fst (deleteModel notFoundEnv ''alpha'' True True alphaWorld) = Inl (FailedToDeleteModel 404)
   \<and> map_of (models (config (snd (deleteModel notFoundEnv ''alpha'' True True alphaWorld)))) ''alpha''
       = None
   \<and> configFile (snd (deleteModel notFoundEnv ''alpha'' True True alphaWorld))
       = Manifest (emptyConfig\<lparr>models := [(''alpha'', newEntry FromOllama False)]\<rparr>)
   \<and> \<not> inSync (snd (deleteModel notFoundEnv ''alpha'' True True alphaWorld))"
  by (simp add: deleteModel_eval alphaWorld_def notFoundEnv_def inSync_def)

text \<open>
  C10. The claim is that \<^verbatim>\<open>deleteModel(name, true, false)\<close> removes no directory when the
  manifest has no entry for \<open>name\<close>. The gate is the truthiness of
  \<^verbatim>\<open>this.config.models[name]\<close>, and that lookup also finds what every object inherits:
  for \<^verbatim>\<open>constructor\<close>, with an empty manifest, the gate is open and the directory
  \<^verbatim>\<open>modelPath/constructor\<close> is removed.
\<close>

theorem deleteModel_inherited_name_removes_directory:
  "map_of (models (config constructorWorld)) ''constructor'' = None
   \<and> modelDir constructorWorld = Directory [(''constructor'', Dir)]
   \<and> fst (deleteModel sampleEnv ''constructor'' True False constructorWorld)
       = Inr (DeleteSuccess ''constructor'')
   \<and> modelDir (snd (deleteModel sampleEnv ''constructor'' True False constructorWorld))
       = Directory []"
  by (simp add: deleteModel_eval constructorWorld_def)

section \<open>Error events of a rejected operation\<close>










































end
